theory Spec2Isabelle
  imports
    Complex_Main
    "HOL-Library.AList"
    "HOL-Library.Char_ord"
    "HOL-Library.List_Lexorder"
begin

unbundle bit_operations_syntax

section \<open>Python values\<close>

text \<open>
  The exceptions that the modelled code can raise. A function that can raise returns
  \<open>error + 'a\<close>, with \<open>Inl\<close> for the exception.
\<close>

datatype error =
    ValueError string
  | KeyError string
  | IndexError
  | AttributeError
  | ZeroDivisionError

text \<open>
  \<^verbatim>\<open>list.index(x)\<close>: the position of the first element equal to \<open>x\<close>. Python raises
  ValueError when there is none; here that is \<open>None\<close>, and each caller turns it into
  the error.
\<close>

fun list_index :: "'a list \<Rightarrow> 'a \<Rightarrow> nat option" where
  "list_index [] x = None"
| "list_index (y # ys) x = (if y = x then Some 0 else map_option Suc (list_index ys x))"

text \<open>
  A lower-casing function for the examples: ASCII letters only. The model itself takes
  \<^verbatim>\<open>str.lower\<close> as a parameter \<open>lower\<close>, so every theorem holds for Python's
  full Unicode case mapping as well.
\<close>

definition ascii_lower_char :: "char \<Rightarrow> char" where
  "ascii_lower_char c =
     (case map_of (zip ''ABCDEFGHIJKLMNOPQRSTUVWXYZ'' ''abcdefghijklmnopqrstuvwxyz'') c of
        None \<Rightarrow> c
      | Some l \<Rightarrow> l)"

definition ascii_lower :: "string \<Rightarrow> string" where
  "ascii_lower s = map ascii_lower_char s"

section \<open>mathutils: vectors and quaternions\<close>

text \<open>
  \<^verbatim>\<open>mathutils.Vector\<close> (three components) and \<^verbatim>\<open>mathutils.Quaternion\<close> (w, x, y, z).
  Python floats are modelled as reals: the arithmetic is exact, rounding is outside the
  model.
\<close>

record vec =
  vx :: real
  vy :: real
  vz :: real

record quat =
  qw :: real
  qx :: real
  qy :: real
  qz :: real

text \<open>\<^verbatim>\<open>Vector()\<close> and \<^verbatim>\<open>Quaternion()\<close>: the zero vector and the identity rotation.\<close>

definition Vector0 :: vec where
  "Vector0 = \<lparr>vx = 0, vy = 0, vz = 0\<rparr>"

definition Quaternion1 :: quat where
  "Quaternion1 = \<lparr>qw = 1, qx = 0, qy = 0, qz = 0\<rparr>"

text \<open>\<^verbatim>\<open>a - b\<close> on vectors, and \<^verbatim>\<open>q.conjugated()\<close>.\<close>

definition Vector_sub :: "vec \<Rightarrow> vec \<Rightarrow> vec" where
  "Vector_sub a b = \<lparr>vx = vx a - vx b, vy = vy a - vy b, vz = vz a - vz b\<rparr>"

definition conjugated :: "quat \<Rightarrow> quat" where
  "conjugated q = \<lparr>qw = qw q, qx = - qx q, qy = - qy q, qz = - qz q\<rparr>"

text \<open>
  \<^verbatim>\<open>Quaternion.rotate(other)\<close> and \<^verbatim>\<open>Vector.rotate(other)\<close> are implemented inside
  mathutils (through rotation matrices) and are parameters of the model:
  \<open>Quaternion_rotate m q other\<close> is the value of \<open>q\<close> after \<^verbatim>\<open>q.rotate(other)\<close>,
  \<open>Vector_rotate m v other\<close> the value of \<open>v\<close> after \<^verbatim>\<open>v.rotate(other)\<close>.
\<close>

record mathutils =
  Quaternion_rotate :: "quat \<Rightarrow> quat \<Rightarrow> quat"
  Vector_rotate :: "vec \<Rightarrow> quat \<Rightarrow> vec"

text \<open>
  One instance, for the examples: rotation by the Hamilton product, \<open>other * q\<close> for a
  quaternion and \<open>other * v * conjugated other\<close> for a vector.
\<close>

definition hamilton :: "quat \<Rightarrow> quat \<Rightarrow> quat" where
  "hamilton a b =
     \<lparr>qw = qw a * qw b - qx a * qx b - qy a * qy b - qz a * qz b,
      qx = qw a * qx b + qx a * qw b + qy a * qz b - qz a * qy b,
      qy = qw a * qy b - qx a * qz b + qy a * qw b + qz a * qx b,
      qz = qw a * qz b + qx a * qy b - qy a * qx b + qz a * qw b\<rparr>"

definition hamilton_rotate_vec :: "vec \<Rightarrow> quat \<Rightarrow> vec" where
  "hamilton_rotate_vec v other =
     (let r = hamilton (hamilton other \<lparr>qw = 0, qx = vx v, qy = vy v, qz = vz v\<rparr>)
                (conjugated other)
      in \<lparr>vx = qx r, vy = qy r, vz = qz r\<rparr>)"

definition hamilton_mathutils :: mathutils where
  "hamilton_mathutils =
     \<lparr>Quaternion_rotate = (\<lambda>q other. hamilton other q),
      Vector_rotate = hamilton_rotate_vec\<rparr>"

section \<open>psa/importer.py\<close>

subsection \<open>ImportBone\<close>

text \<open>
  A bone of the target armature, as far as the importer reads it: its name, the
  translation and the rotation (\<^verbatim>\<open>to_quaternion()\<close>) of \<^verbatim>\<open>matrix_local\<close>, and its
  parent bone.
\<close>

datatype armature_bone =
  ArmatureBone
    (bone_name: string)
    (matrix_local_translation: vec)
    (matrix_local_to_quaternion: quat)
    (bone_parent: "armature_bone option")

text \<open>
  \<^verbatim>\<open>class ImportBone\<close>. \<open>psa_bone\<close> is the index of the PSA bone, \<open>parent\<close> refers to
  another ImportBone by its position in \<^verbatim>\<open>import_bones\<close>. \<open>fcurves\<close> holds, for each
  of the seven channels (Qw, Qx, Qy, Qz, Lx, Ly, Lz), the keyframe points
  \<open>(time, value)\<close> of the f-curve, or \<open>None\<close> where no f-curve was created.
\<close>

type_synonym fcurve = "(real \<times> real) list"

record ImportBone =
  psa_bone :: nat
  parent :: "nat option"
  armature_bone :: armature_bone
  original_location :: vec
  original_rotation :: quat
  post_rotation :: quat
  fcurves :: "fcurve option list"

text \<open>
  \<^verbatim>\<open>ImportBone(psa_bone)\<close> followed by the assignment of \<^verbatim>\<open>armature_bone\<close>
  (lines 137-138). The pose bone of line 139 has the name of the armature bone and only
  names the data paths of the f-curves; it is left out.
\<close>

definition new_ImportBone :: "nat \<Rightarrow> armature_bone \<Rightarrow> ImportBone" where
  "new_ImportBone b a =
     \<lparr>psa_bone = b, parent = None, armature_bone = a,
      original_location = Vector0, original_rotation = Quaternion1,
      post_rotation = Quaternion1, fcurves = []\<rparr>"

subsection \<open>\<^verbatim>\<open>_calculate_fcurve_data\<close>\<close>

text \<open>
  The function works on quaternion objects that it mutates in place, and \<^verbatim>\<open>quat = q\<close>
  makes two variables refer to one object. The local objects live in a store (a list,
  addressed by position); a variable holds an address.
\<close>

definition q_new :: "quat \<Rightarrow> quat list \<Rightarrow> nat \<times> quat list" where
  "q_new v h = (length h, h @ [v])"

definition q_rotate :: "mathutils \<Rightarrow> nat \<Rightarrow> quat \<Rightarrow> quat list \<Rightarrow> quat list" where
  "q_rotate m a other h = h[a := Quaternion_rotate m (h ! a) other]"

text \<open>
  \<open>key_rotation\<close> and \<open>key_location\<close> are \<^verbatim>\<open>Quaternion(key_data[0:4])\<close> and
  \<^verbatim>\<open>Vector(key_data[4:])\<close>; the seven returned floats are the components of the
  returned pair.
\<close>

definition calculate_fcurve_data :: "mathutils \<Rightarrow> ImportBone \<Rightarrow> quat \<times> vec \<Rightarrow> quat \<times> vec" where
  "calculate_fcurve_data m import_bone key_data =
     (let key_rotation = fst key_data;
          key_location = snd key_data;
          (q, h) = q_new (post_rotation import_bone) [];
          h = q_rotate m q (original_rotation import_bone) h;
          quat = q;
          (q, h) = q_new (post_rotation import_bone) h;
          h = (if parent import_bone = None
               then q_rotate m q (conjugated key_rotation) h
               else q_rotate m q key_rotation h);
          h = q_rotate m quat (conjugated (h ! q)) h;
          loc = Vector_sub key_location (original_location import_bone);
          loc = Vector_rotate m loc (conjugated (post_rotation import_bone))
      in (h ! quat, loc))"

subsection \<open>\<^verbatim>\<open>_get_armature_bone_index_for_psa_bone\<close>\<close>

text \<open>The loop over \<^verbatim>\<open>enumerate(armature_bone_names)\<close>, from position \<open>i\<close> on.\<close>

fun armature_bone_index_from ::
  "(string \<Rightarrow> string) \<Rightarrow> string \<Rightarrow> string \<Rightarrow> nat \<Rightarrow> string list \<Rightarrow> nat option" where
  "armature_bone_index_from lower psa_bone_name bone_mapping_mode i [] = None"
| "armature_bone_index_from lower psa_bone_name bone_mapping_mode i (armature_bone_name # rest) =
     (if bone_mapping_mode = ''CASE_INSENSITIVE'' then
        (if lower armature_bone_name = lower psa_bone_name then Some i
         else armature_bone_index_from lower psa_bone_name bone_mapping_mode (Suc i) rest)
      else
        (if armature_bone_name = psa_bone_name then Some i
         else armature_bone_index_from lower psa_bone_name bone_mapping_mode (Suc i) rest))"

definition get_armature_bone_index_for_psa_bone ::
  "(string \<Rightarrow> string) \<Rightarrow> string \<Rightarrow> string list \<Rightarrow> string \<Rightarrow> nat option" where
  "get_armature_bone_index_for_psa_bone lower psa_bone_name armature_bone_names bone_mapping_mode =
     armature_bone_index_from lower psa_bone_name bone_mapping_mode 0 armature_bone_names"

subsection \<open>\<^verbatim>\<open>import_psa\<close>: the bone mapping (lines 88-125)\<close>

text \<open>
  The four variables of the mapping loop. The dictionaries are association lists in
  insertion order.
\<close>

record bone_mapping =
  psa_to_armature_bone_indices :: "(nat \<times> nat) list"
  armature_to_psa_bone_indices :: "(nat \<times> nat) list"
  psa_bone_names :: "string list"
  duplicate_mappings :: "(nat \<times> nat \<times> nat) list"

definition empty_bone_mapping :: bone_mapping where
  "empty_bone_mapping =
     \<lparr>psa_to_armature_bone_indices = [], armature_to_psa_bone_indices = [],
      psa_bone_names = [], duplicate_mappings = []\<rparr>"

text \<open>One iteration of the loop of lines 95-108.\<close>

definition map_psa_bone ::
  "(string \<Rightarrow> string) \<Rightarrow> string \<Rightarrow> string list \<Rightarrow> nat \<Rightarrow> string \<Rightarrow> bone_mapping
     \<Rightarrow> error + bone_mapping" where
  "map_psa_bone lower bone_mapping_mode armature_bone_names psa_bone_index psa_bone_name st =
     (case get_armature_bone_index_for_psa_bone lower psa_bone_name armature_bone_names
             bone_mapping_mode of
        Some armature_bone_index \<Rightarrow>
          (case
             (case map_of (armature_to_psa_bone_indices st) armature_bone_index of
                None \<Rightarrow>
                  (case list_index armature_bone_names psa_bone_name of
                     None \<Rightarrow> Inl (ValueError psa_bone_name)
                   | Some j \<Rightarrow>
                       Inr (st\<lparr>psa_to_armature_bone_indices :=
                                 AList.update psa_bone_index j (psa_to_armature_bone_indices st),
                               armature_to_psa_bone_indices :=
                                 AList.update armature_bone_index psa_bone_index
                                   (armature_to_psa_bone_indices st)\<rparr>))
              | Some mapped_psa_bone_index \<Rightarrow>
                  Inr (st\<lparr>duplicate_mappings := duplicate_mappings st @
                            [(psa_bone_index, armature_bone_index, mapped_psa_bone_index)]\<rparr>))
           of
             Inl e \<Rightarrow> Inl e
           | Inr st' \<Rightarrow>
               Inr (st'\<lparr>psa_bone_names := psa_bone_names st' @
                          [armature_bone_names ! armature_bone_index]\<rparr>))
      | None \<Rightarrow> Inr (st\<lparr>psa_bone_names := psa_bone_names st @ [psa_bone_name]\<rparr>))"

fun map_psa_bones ::
  "(string \<Rightarrow> string) \<Rightarrow> string \<Rightarrow> string list \<Rightarrow> (nat \<times> string) list \<Rightarrow> bone_mapping
     \<Rightarrow> error + bone_mapping" where
  "map_psa_bones lower bone_mapping_mode armature_bone_names [] st = Inr st"
| "map_psa_bones lower bone_mapping_mode armature_bone_names ((psa_bone_index, psa_bone_name) # rest) st =
     (case map_psa_bone lower bone_mapping_mode armature_bone_names psa_bone_index psa_bone_name st of
        Inl e \<Rightarrow> Inl e
      | Inr st' \<Rightarrow> map_psa_bones lower bone_mapping_mode armature_bone_names rest st')"

text \<open>
  The warnings of \<^verbatim>\<open>result.warnings\<close>. The formatted message is kept as its
  arguments: for a duplicate mapping the PSA bone index and name, the armature bone
  index and name, and the index and name of the PSA bone already mapped; for the
  missing bones the armature object's name, the number of names and the sorted names.
\<close>

datatype warning =
    DuplicateMapping nat string nat string nat string
  | MissingBones string nat "string list"

definition duplicate_mapping_warnings ::
  "string list \<Rightarrow> string list \<Rightarrow> (nat \<times> nat \<times> nat) list \<Rightarrow> warning list" where
  "duplicate_mapping_warnings psa_names armature_bone_names dups =
     map (\<lambda>(psa_bone_index, armature_bone_index, mapped_psa_bone_index).
            DuplicateMapping
              psa_bone_index (psa_names ! psa_bone_index)
              armature_bone_index (armature_bone_names ! armature_bone_index)
              mapped_psa_bone_index (psa_names ! mapped_psa_bone_index))
         dups"

definition missing_bone_names :: "string list \<Rightarrow> string list \<Rightarrow> string list" where
  "missing_bone_names psa_names armature_bone_names =
     sorted_list_of_set (set psa_names - set armature_bone_names)"

definition missing_bones_warnings :: "string \<Rightarrow> string list \<Rightarrow> string list \<Rightarrow> warning list" where
  "missing_bones_warnings armature_object_name psa_names armature_bone_names =
     (let missing = missing_bone_names psa_names armature_bone_names
      in if length missing > 0
         then [MissingBones armature_object_name (length missing) missing]
         else [])"

text \<open>
  Lines 88-125 as a whole: the mapping loop over the decoded PSA bone names, then the
  two kinds of warnings.
\<close>

definition map_bones ::
  "(string \<Rightarrow> string) \<Rightarrow> string \<Rightarrow> string \<Rightarrow> string list \<Rightarrow> string list
     \<Rightarrow> error + (bone_mapping \<times> warning list)" where
  "map_bones lower bone_mapping_mode armature_object_name armature_bone_names psa_reader_bone_names =
     (case map_psa_bones lower bone_mapping_mode armature_bone_names
             (enumerate 0 psa_reader_bone_names) empty_bone_mapping of
        Inl e \<Rightarrow> Inl e
      | Inr st \<Rightarrow>
          Inr (st,
               duplicate_mapping_warnings (psa_bone_names st) armature_bone_names
                 (duplicate_mappings st)
               @ missing_bones_warnings armature_object_name (psa_bone_names st)
                   armature_bone_names))"

subsection \<open>\<^verbatim>\<open>import_psa\<close>: the import bones (lines 128-157)\<close>

text \<open>\<^verbatim>\<open>armature_data.bones[name]\<close>: the bone of that name, KeyError when there is none.\<close>

definition bones_getitem :: "armature_bone list \<Rightarrow> string \<Rightarrow> error + armature_bone" where
  "bones_getitem bones n =
     (case find (\<lambda>b. bone_name b = n) bones of
        None \<Rightarrow> Inl (KeyError n)
      | Some b \<Rightarrow> Inr b)"

text \<open>
  The loop of lines 132-141 over the PSA bone indices and the names of
  \<^verbatim>\<open>psa_bone_names\<close>. \<^verbatim>\<open>import_bones_dict\<close> maps a name to the position of its
  ImportBone in \<^verbatim>\<open>import_bones\<close>.
\<close>

fun create_import_bones ::
  "armature_bone list \<Rightarrow> (nat \<times> nat) list \<Rightarrow> (nat \<times> string) list
     \<Rightarrow> ImportBone option list \<times> (string \<rightharpoonup> nat)
     \<Rightarrow> error + (ImportBone option list \<times> (string \<rightharpoonup> nat))" where
  "create_import_bones bones p2a [] acc = Inr acc"
| "create_import_bones bones p2a ((psa_bone_index, psa_bone_name) # rest)
       (import_bones, import_bones_dict) =
     (if map_of p2a psa_bone_index = None then
        create_import_bones bones p2a rest (import_bones @ [None], import_bones_dict)
      else
        (case bones_getitem bones psa_bone_name of
           Inl e \<Rightarrow> Inl e
         | Inr a \<Rightarrow>
             create_import_bones bones p2a rest
               (import_bones @ [Some (new_ImportBone psa_bone_index a)],
                import_bones_dict(psa_bone_name \<mapsto> length import_bones))))"

text \<open>
  The body of the loop of lines 143-157 for one ImportBone: the parent link, then the
  original location and rotation, then the post-rotation.
\<close>

definition calculate_bind_pose ::
  "mathutils \<Rightarrow> string list \<Rightarrow> (string \<rightharpoonup> nat) \<Rightarrow> ImportBone \<Rightarrow> error + ImportBone" where
  "calculate_bind_pose m psa_names import_bones_dict import_bone =
     (let a = armature_bone import_bone in
      case
        (case bone_parent a of
           None \<Rightarrow> Inr import_bone
         | Some p \<Rightarrow>
             if bone_name p \<in> set psa_names then
               (case import_bones_dict (bone_name p) of
                  None \<Rightarrow> Inl (KeyError (bone_name p))
                | Some r \<Rightarrow> Inr (import_bone\<lparr>parent := Some r\<rparr>))
             else Inr import_bone)
      of
        Inl e \<Rightarrow> Inl e
      | Inr import_bone \<Rightarrow>
          (case
             (if parent import_bone \<noteq> None then
                (case bone_parent a of
                   None \<Rightarrow> Inl AttributeError
                 | Some p \<Rightarrow>
                     Inr (import_bone
                       \<lparr>original_location :=
                          Vector_rotate m
                            (Vector_sub (matrix_local_translation a) (matrix_local_translation p))
                            (conjugated (matrix_local_to_quaternion p)),
                        original_rotation :=
                          conjugated
                            (Quaternion_rotate m (matrix_local_to_quaternion a)
                               (conjugated (matrix_local_to_quaternion p)))\<rparr>))
              else
                Inr (import_bone
                  \<lparr>original_location := matrix_local_translation a,
                   original_rotation := matrix_local_to_quaternion a\<rparr>))
           of
             Inl e \<Rightarrow> Inl e
           | Inr import_bone \<Rightarrow>
               Inr (import_bone\<lparr>post_rotation := conjugated (original_rotation import_bone)\<rparr>)))"

text \<open>The loop over \<^verbatim>\<open>filter(lambda x: x is not None, import_bones)\<close>.\<close>

fun for_each_import_bone ::
  "(ImportBone \<Rightarrow> error + ImportBone) \<Rightarrow> ImportBone option list \<Rightarrow> error + ImportBone option list" where
  "for_each_import_bone f [] = Inr []"
| "for_each_import_bone f (None # rest) =
     (case for_each_import_bone f rest of
        Inl e \<Rightarrow> Inl e
      | Inr rest' \<Rightarrow> Inr (None # rest'))"
| "for_each_import_bone f (Some import_bone # rest) =
     (case f import_bone of
        Inl e \<Rightarrow> Inl e
      | Inr import_bone' \<Rightarrow>
          (case for_each_import_bone f rest of
             Inl e \<Rightarrow> Inl e
           | Inr rest' \<Rightarrow> Inr (Some import_bone' # rest')))"

text \<open>Lines 128-157: from the bone mapping to the import bones with their bind poses.\<close>

definition build_import_bones ::
  "mathutils \<Rightarrow> armature_bone list \<Rightarrow> bone_mapping \<Rightarrow> error + ImportBone option list" where
  "build_import_bones m bones st =
     (case create_import_bones bones (psa_to_armature_bone_indices st)
             (enumerate 0 (psa_bone_names st)) ([], Map.empty) of
        Inl e \<Rightarrow> Inl e
      | Inr (import_bones, import_bones_dict) \<Rightarrow>
          for_each_import_bone (calculate_bind_pose m (psa_bone_names st) import_bones_dict)
            import_bones)"

subsection \<open>\<^verbatim>\<open>import_psa\<close>: the sequences (lines 161-258)\<close>

text \<open>
  A sequence of the PSA (its name decoded), and the reader: the decoded bone names, the
  sequences by name, and \<^verbatim>\<open>read_sequence_data_matrix\<close>, whose result has the shape
  \<open>[frame_count][number of bones][7]\<close> and is a function of the frame index and the
  bone index here. The frame count is the number of frames that the reader has read, a
  natural number.
\<close>

type_synonym matrix = "nat \<times> nat \<Rightarrow> quat \<times> vec"

record Sequence =
  sequence_name :: string
  fps :: real
  frame_count :: nat

record PsaReader =
  reader_bones :: "string list"
  reader_sequences :: "string \<rightharpoonup> Sequence"
  read_sequence_data_matrix :: "string \<Rightarrow> matrix"

text \<open>
  The options that the modelled part of \<^verbatim>\<open>import_psa\<close> reads;
  \<open>sequence_bone_flags\<close> is \<^verbatim>\<open>psa_config.sequence_bone_flags\<close>.
\<close>

record PsaImportOptions =
  sequence_names :: "string list"
  should_write_keyframes :: bool
  should_write_metadata :: bool
  action_name_prefix :: string
  bone_mapping_mode :: string
  fps_source :: string
  fps_custom :: real
  sequence_bone_flags :: "string \<rightharpoonup> (nat \<rightharpoonup> int)"

text \<open>
  The constants of the module \<^verbatim>\<open>psa/config\<close> (not part of these sources) are
  parameters.
\<close>

record config =
  REMOVE_TRACK_LOCATION :: int
  REMOVE_TRACK_ROTATION :: int

text \<open>
  The action that a sequence is imported into: its name, for each PSA bone index the
  f-curves of the import bone (\<open>None\<close> for a bone without import bone), and the frame
  rate written to the metadata. The action is a new one, without f-curves; the options
  that only drive the host (overwriting an action, the fake user, the conversion to
  samples, the stashing on a track) are left out.
\<close>

record Action =
  action_name :: string
  action_fcurves :: "fcurve option list option list"
  psa_export_fps :: "real option"

text \<open>Lines 178-187.\<close>

definition calculate_target_fps :: "PsaImportOptions \<Rightarrow> real \<Rightarrow> Sequence \<Rightarrow> error + real" where
  "calculate_target_fps options scene_render_fps sequence =
     (if fps_source options = ''CUSTOM'' then Inr (fps_custom options)
      else if fps_source options = ''SCENE'' then Inr scene_render_fps
      else if fps_source options = ''SEQUENCE'' then Inr (fps sequence)
      else Inl (ValueError (''Unknown FPS source: '' @ fps_source options)))"

text \<open>\<^verbatim>\<open>a / b\<close> on floats raises ZeroDivisionError for \<open>b = 0\<close>.\<close>

definition truediv :: "real \<Rightarrow> real \<Rightarrow> error + real" where
  "truediv a b = (if b = 0 then Inl ZeroDivisionError else Inr (a / b))"

text \<open>
  Lines 197-213: new, empty f-curves for every mapped bone, except for the channels that
  the bone's track flags remove.
\<close>

definition new_fcurves :: "config \<Rightarrow> int \<Rightarrow> fcurve option list" where
  "new_fcurves c bone_track_flags =
     (let add_rotation_fcurves = (bone_track_flags AND REMOVE_TRACK_ROTATION c = 0);
          add_location_fcurves = (bone_track_flags AND REMOVE_TRACK_LOCATION c = 0)
      in [if add_rotation_fcurves then Some [] else None,
          if add_rotation_fcurves then Some [] else None,
          if add_rotation_fcurves then Some [] else None,
          if add_rotation_fcurves then Some [] else None,
          if add_location_fcurves then Some [] else None,
          if add_location_fcurves then Some [] else None,
          if add_location_fcurves then Some [] else None])"

fun create_fcurves ::
  "config \<Rightarrow> (nat \<rightharpoonup> int) \<Rightarrow> (nat \<times> nat) list \<Rightarrow> ImportBone option list
     \<Rightarrow> error + ImportBone option list" where
  "create_fcurves c sequence_bone_track_flags [] import_bones = Inr import_bones"
| "create_fcurves c sequence_bone_track_flags ((psa_bone_index, armature_bone_index) # rest)
       import_bones =
     (let bone_track_flags =
            (case sequence_bone_track_flags psa_bone_index of None \<Rightarrow> 0 | Some f \<Rightarrow> f)
      in if psa_bone_index < length import_bones then
           (case import_bones ! psa_bone_index of
              None \<Rightarrow> Inl AttributeError
            | Some import_bone \<Rightarrow>
                create_fcurves c sequence_bone_track_flags rest
                  (import_bones[psa_bone_index :=
                     Some (import_bone\<lparr>fcurves := new_fcurves c bone_track_flags\<rparr>)]))
         else Inl IndexError)"

text \<open>Lines 219-226: the conversion of the matrix in place, bone by bone, frame by frame.\<close>

definition convert_bone ::
  "mathutils \<Rightarrow> nat \<Rightarrow> nat \<Rightarrow> ImportBone \<Rightarrow> matrix \<Rightarrow> matrix" where
  "convert_bone m n bone_index import_bone sequence_data_matrix =
     fold (\<lambda>frame_index mat.
             mat((frame_index, bone_index) :=
                   calculate_fcurve_data m import_bone (mat (frame_index, bone_index))))
          [0..<n] sequence_data_matrix"

definition convert_sequence_data ::
  "mathutils \<Rightarrow> nat \<Rightarrow> ImportBone option list \<Rightarrow> matrix \<Rightarrow> matrix" where
  "convert_sequence_data m n import_bones sequence_data_matrix =
     fold (\<lambda>(bone_index, import_bone) mat.
             case import_bone of
               None \<Rightarrow> mat
             | Some b \<Rightarrow> convert_bone m n bone_index b mat)
          (enumerate 0 import_bones) sequence_data_matrix"

text \<open>
  Lines 229-241. \<open>keyframe_times\<close> is \<^verbatim>\<open>fcurve_data[0::2]\<close>; \<open>matrix_column\<close> is
  \<^verbatim>\<open>sequence_data_matrix[:, bone_index, fcurve_index]\<close>, the values written to
  \<^verbatim>\<open>fcurve_data[1::2]\<close>; the keyframe points of an f-curve are the pairs of the two.
\<close>

definition key_data_floats :: "quat \<times> vec \<Rightarrow> real list" where
  "key_data_floats k =
     [qw (fst k), qx (fst k), qy (fst k), qz (fst k), vx (snd k), vy (snd k), vz (snd k)]"

definition keyframe_times :: "real \<Rightarrow> nat \<Rightarrow> real list" where
  "keyframe_times keyframe_time_dilation n =
     map (\<lambda>x. real x * keyframe_time_dilation) [0..<n]"

definition matrix_column :: "matrix \<Rightarrow> nat \<Rightarrow> nat \<Rightarrow> nat \<Rightarrow> real list" where
  "matrix_column mat n bone_index fcurve_index =
     map (\<lambda>frame_index. key_data_floats (mat (frame_index, bone_index)) ! fcurve_index) [0..<n]"

definition write_keyframes ::
  "real list \<Rightarrow> matrix \<Rightarrow> nat \<Rightarrow> ImportBone option list \<Rightarrow> ImportBone option list" where
  "write_keyframes time_data mat n import_bones =
     map (\<lambda>(bone_index, import_bone).
            map_option
              (\<lambda>b. b\<lparr>fcurves :=
                       map (\<lambda>(fcurve_index, fcurve).
                              map_option
                                (\<lambda>_. zip time_data (matrix_column mat n bone_index fcurve_index))
                                fcurve)
                           (enumerate 0 (fcurves b))\<rparr>)
              import_bone)
         (enumerate 0 import_bones)"

text \<open>
  The body of the loop over the sequences, for one sequence. It returns the action and
  the import bones, whose f-curves it has replaced.
\<close>

definition import_sequence ::
  "mathutils \<Rightarrow> config \<Rightarrow> real \<Rightarrow> PsaReader \<Rightarrow> PsaImportOptions \<Rightarrow> (nat \<times> nat) list
     \<Rightarrow> ImportBone option list \<Rightarrow> Sequence \<Rightarrow> error + (Action \<times> ImportBone option list)" where
  "import_sequence m c scene_render_fps psa_reader options p2a import_bones sequence =
     (let sequence_bone_track_flags =
            (case sequence_bone_flags options (sequence_name sequence) of
               None \<Rightarrow> Map.empty
             | Some flags \<Rightarrow> flags)
      in
      (case calculate_target_fps options scene_render_fps sequence of
         Inl e \<Rightarrow> Inl e
       | Inr target_fps \<Rightarrow>
      (case truediv target_fps (fps sequence) of
         Inl e \<Rightarrow> Inl e
       | Inr keyframe_time_dilation \<Rightarrow>
      (case
         (if should_write_keyframes options then
            (case create_fcurves c sequence_bone_track_flags p2a import_bones of
               Inl e \<Rightarrow> Inl e
             | Inr import_bones \<Rightarrow>
                 (let sequence_data_matrix =
                        convert_sequence_data m (frame_count sequence) import_bones
                          (read_sequence_data_matrix psa_reader (sequence_name sequence))
                  in Inr (write_keyframes
                            (keyframe_times keyframe_time_dilation (frame_count sequence))
                            sequence_data_matrix (frame_count sequence) import_bones)))
          else Inr import_bones)
       of
         Inl e \<Rightarrow> Inl e
       | Inr import_bones \<Rightarrow>
           Inr (\<lparr>action_name = action_name_prefix options @ sequence_name sequence,
                 action_fcurves =
                   (if should_write_keyframes options
                    then map (map_option fcurves) import_bones else []),
                 psa_export_fps =
                   (if should_write_metadata options then Some target_fps else None)\<rparr>,
                import_bones)))))"

fun import_sequences ::
  "mathutils \<Rightarrow> config \<Rightarrow> real \<Rightarrow> PsaReader \<Rightarrow> PsaImportOptions \<Rightarrow> (nat \<times> nat) list
     \<Rightarrow> ImportBone option list \<Rightarrow> Sequence list \<Rightarrow> error + Action list" where
  "import_sequences m c scene_render_fps psa_reader options p2a import_bones [] = Inr []"
| "import_sequences m c scene_render_fps psa_reader options p2a import_bones (sequence # rest) =
     (case import_sequence m c scene_render_fps psa_reader options p2a import_bones sequence of
        Inl e \<Rightarrow> Inl e
      | Inr (action, import_bones') \<Rightarrow>
          (case import_sequences m c scene_render_fps psa_reader options p2a import_bones' rest of
             Inl e \<Rightarrow> Inl e
           | Inr actions \<Rightarrow> Inr (action # actions)))"

subsection \<open>\<^verbatim>\<open>import_psa\<close>\<close>

text \<open>Line 85: \<^verbatim>\<open>[psa_reader.sequences[x] for x in options.sequence_names]\<close>.\<close>

fun lookup_sequences :: "(string \<rightharpoonup> Sequence) \<Rightarrow> string list \<Rightarrow> error + Sequence list" where
  "lookup_sequences d [] = Inr []"
| "lookup_sequences d (x # xs) =
     (case d x of
        None \<Rightarrow> Inl (KeyError x)
      | Some s \<Rightarrow>
          (case lookup_sequences d xs of
             Inl e \<Rightarrow> Inl e
           | Inr ss \<Rightarrow> Inr (s # ss)))"

text \<open>
  The armature object: its name and the bones of its armature data. The host context
  gives the scene's frame rate. \<^verbatim>\<open>import_psa\<close> returns the warnings; the actions it
  has created in the host are returned with them.
\<close>

record armature_object =
  object_name :: string
  data_bones :: "armature_bone list"

definition import_psa ::
  "mathutils \<Rightarrow> (string \<Rightarrow> string) \<Rightarrow> config \<Rightarrow> real \<Rightarrow> PsaReader \<Rightarrow> armature_object
     \<Rightarrow> PsaImportOptions \<Rightarrow> error + (warning list \<times> Action list)" where
  "import_psa m lower c scene_render_fps psa_reader armature options =
     (case lookup_sequences (reader_sequences psa_reader) (sequence_names options) of
        Inl e \<Rightarrow> Inl e
      | Inr sequences \<Rightarrow>
     (case map_bones lower (bone_mapping_mode options) (object_name armature)
             (map bone_name (data_bones armature)) (reader_bones psa_reader) of
        Inl e \<Rightarrow> Inl e
      | Inr (st, warnings) \<Rightarrow>
     (case build_import_bones m (data_bones armature) st of
        Inl e \<Rightarrow> Inl e
      | Inr import_bones \<Rightarrow>
     (case import_sequences m c scene_render_fps psa_reader options
             (psa_to_armature_bone_indices st) import_bones sequences of
        Inl e \<Rightarrow> Inl e
      | Inr actions \<Rightarrow> Inr (warnings, actions)))))"

section \<open>psa/exporter.py\<close>

text \<open>
  \<^verbatim>\<open>Section\<close>, \<^verbatim>\<open>Psa.Bone\<close>, \<^verbatim>\<open>Psa.Sequence\<close> and \<^verbatim>\<open>Psa.Key\<close> are declared in
  \<^verbatim>\<open>psa/data\<close>, which is not part of these sources: the three record types are type
  parameters, \<^verbatim>\<open>sizeof\<close> is a parameter, and a section header is its name, element
  size and element count.
\<close>

record Section =
  name :: string
  data_size :: int
  data_count :: int

text \<open>
  Modelled from the spec: the constructor \<^verbatim>\<open>Section()\<close> of \<^verbatim>\<open>psa/data\<close> is missing;
  a header whose size and count are not assigned has zero size and count fields.
\<close>

definition new_Section :: Section where
  "new_Section = \<lparr>name = [], data_size = 0, data_count = 0\<rparr>"

datatype data_type = Psa_Bone | Psa_Sequence | Psa_Key

datatype ('b, 's, 'k) datum = Bone 'b | SequenceInfo 's | Key 'k

text \<open>What \<^verbatim>\<open>fp.write\<close> has received, in order: the file is the list of these.\<close>

datatype ('b, 's, 'k) written = Header Section | Datum "('b, 's, 'k) datum"

record ('b, 's, 'k) Psa =
  bones :: "'b list"
  sequences :: "(string \<times> 's) list"
  keys :: "'k list"

definition write_section ::
  "(data_type \<Rightarrow> int) \<Rightarrow> ('b, 's, 'k) written list \<Rightarrow> string \<Rightarrow> data_type option
     \<Rightarrow> ('b, 's, 'k) datum list option \<Rightarrow> ('b, 's, 'k) written list" where
  "write_section sizeof fp section_name data_type data =
     (let section = new_Section;
          section = section\<lparr>name := section_name\<rparr>;
          section =
            (case (data_type, data) of
               (Some t, Some d) \<Rightarrow> section\<lparr>data_size := sizeof t, data_count := int (length d)\<rparr>
             | _ \<Rightarrow> section);
          fp = fp @ [Header section]
      in case data of
           None \<Rightarrow> fp
         | Some d \<Rightarrow> fold (\<lambda>datum fp. fp @ [Datum datum]) d fp)"

text \<open>\<^verbatim>\<open>PsaExporter.export\<close>: the contents of the file opened at \<^verbatim>\<open>path\<close>.\<close>

definition export :: "(data_type \<Rightarrow> int) \<Rightarrow> ('b, 's, 'k) Psa \<Rightarrow> ('b, 's, 'k) written list" where
  "export sizeof psa =
     (let fp = [];
          fp = write_section sizeof fp ''ANIMHEAD'' None None;
          fp = write_section sizeof fp ''BONENAMES'' (Some Psa_Bone) (Some (map Bone (bones psa)));
          fp = write_section sizeof fp ''ANIMINFO'' (Some Psa_Sequence)
                 (Some (map SequenceInfo (map snd (sequences psa))));
          fp = write_section sizeof fp ''ANIMKEYS'' (Some Psa_Key) (Some (map Key (keys psa)))
      in fp)"

section \<open>Notions used in the statements\<close>

text \<open>
  When a PSA bone name and an armature bone name match under a mapping mode, as the
  loop of \<^verbatim>\<open>_get_armature_bone_index_for_psa_bone\<close> tests it; the name under which a
  PSA bone is kept in \<^verbatim>\<open>psa_bone_names\<close>; the first PSA bone (of the names \<open>ns\<close>)
  whose lookup gives the armature bone index \<open>t\<close>; and what the mapping loop has
  established after the PSA bone names \<open>ns\<close>.
\<close>

definition names_match :: "(string \<Rightarrow> string) \<Rightarrow> string \<Rightarrow> string \<Rightarrow> string \<Rightarrow> bool" where
  "names_match lower mode psa_name armature_name =
     (if mode = ''CASE_INSENSITIVE''
      then lower armature_name = lower psa_name
      else armature_name = psa_name)"

definition resolved_name :: "(string \<Rightarrow> string) \<Rightarrow> string \<Rightarrow> string list \<Rightarrow> string \<Rightarrow> string" where
  "resolved_name lower mode arm n =
     (case get_armature_bone_index_for_psa_bone lower n arm mode of
        None \<Rightarrow> n
      | Some t \<Rightarrow> arm ! t)"

definition claimant :: "(string \<Rightarrow> string) \<Rightarrow> string \<Rightarrow> string list \<Rightarrow> string list \<Rightarrow> nat \<Rightarrow> nat option" where
  "claimant lower mode arm ns t =
     list_index (map (\<lambda>n. get_armature_bone_index_for_psa_bone lower n arm mode) ns) (Some t)"

definition scan_inv ::
  "(string \<Rightarrow> string) \<Rightarrow> string \<Rightarrow> string list \<Rightarrow> string list \<Rightarrow> bone_mapping \<Rightarrow> bool" where
  "scan_inv lower mode arm ns st \<longleftrightarrow>
     psa_bone_names st = map (resolved_name lower mode arm) ns \<and>
     distinct (map fst (armature_to_psa_bone_indices st)) \<and>
     distinct (map fst (psa_to_armature_bone_indices st)) \<and>
     (\<forall>t. map_of (armature_to_psa_bone_indices st) t = claimant lower mode arm ns t) \<and>
     (\<forall>k t s. (k, t, s) \<in> set (duplicate_mappings st) \<longleftrightarrow>
        k < length ns \<and> get_armature_bone_index_for_psa_bone lower (ns ! k) arm mode = Some t \<and>
        claimant lower mode arm ns t = Some s \<and> s < k) \<and>
     (\<forall>i j. (i, j) \<in> set (psa_to_armature_bone_indices st) \<longleftrightarrow>
        i < length ns \<and>
        (\<exists>t. get_armature_bone_index_for_psa_bone lower (ns ! i) arm mode = Some t \<and>
             claimant lower mode arm ns t = Some i) \<and>
        list_index arm (ns ! i) = Some j) \<and>
     (\<forall>t s. claimant lower mode arm ns t = Some s \<longrightarrow> list_index arm (ns ! s) \<noteq> None)"

text \<open>
  The names of the armature bones that have an import bone; an armature whose bones
  have their parents in the armature; and what the loop of lines 132-141 has built after
  the names \<open>names\<close>.
\<close>

definition mapped_bone_names :: "ImportBone option list \<Rightarrow> string set" where
  "mapped_bone_names import_bones =
     {bone_name (armature_bone b) | b. Some b \<in> set import_bones}"

definition parents_in_armature :: "armature_bone list \<Rightarrow> bool" where
  "parents_in_armature bs \<longleftrightarrow>
     (\<forall>b\<in>set bs. \<forall>p. bone_parent b = Some p \<longrightarrow> bone_name p \<in> bone_name ` set bs)"

definition created ::
  "armature_bone list \<Rightarrow> (nat \<times> nat) list \<Rightarrow> string list
     \<Rightarrow> ImportBone option list \<times> (string \<rightharpoonup> nat) \<Rightarrow> bool" where
  "created bs p2a names r \<longleftrightarrow>
     length (fst r) = length names \<and>
     (\<forall>i<length names.
        (map_of p2a i = None \<longrightarrow> fst r ! i = None) \<and>
        (map_of p2a i \<noteq> None \<longrightarrow>
           (\<exists>a. bones_getitem bs (names ! i) = Inr a \<and>
                fst r ! i = Some (new_ImportBone i a)) \<and>
           snd r (names ! i) \<noteq> None))"

text \<open>
  The PSA bone names that match no armature bone name; and the warnings of the bone
  mapping: one for each duplicate mapping, then a single one for the missing bones when
  there are any.
\<close>

definition unmatched_names ::
  "(string \<Rightarrow> string) \<Rightarrow> string \<Rightarrow> string list \<Rightarrow> string list \<Rightarrow> string set" where
  "unmatched_names lower mode arm ns =
     {n \<in> set ns. \<forall>a\<in>set arm. \<not> names_match lower mode n a}"

definition mapping_warnings ::
  "(string \<Rightarrow> string) \<Rightarrow> string \<Rightarrow> string \<Rightarrow> string list \<Rightarrow> string list \<Rightarrow> bone_mapping
     \<Rightarrow> warning list" where
  "mapping_warnings lower mode obj arm ns st =
     duplicate_mapping_warnings (psa_bone_names st) arm (duplicate_mappings st) @
     (if unmatched_names lower mode arm ns = {} then []
      else [MissingBones obj (card (unmatched_names lower mode arm ns))
              (sorted_list_of_set (unmatched_names lower mode arm ns))])"

text \<open>The values of the keyframe points of an action's f-curves, without their times.\<close>

definition keyframe_values :: "Action \<Rightarrow> real list option list option list" where
  "keyframe_values action =
     map (map_option (map (map_option (map snd)))) (action_fcurves action)"

subsection \<open>Examples\<close>

text \<open>
  The mapping that the loop reaches for the PSA bones Pelvis, Spine, spine and the
  armature bones Pelvis, Spine; and import options with a custom frame rate.
\<close>

definition spine_example :: bone_mapping where
  "spine_example =
     \<lparr>psa_to_armature_bone_indices = [(0, 0), (1, 1)],
      armature_to_psa_bone_indices = [(0, 0), (1, 1)],
      psa_bone_names = [''Pelvis'', ''Spine'', ''Spine''],
      duplicate_mappings = [(2, 1, 1)]\<rparr>"

definition example_options :: PsaImportOptions where
  "example_options =
     \<lparr>sequence_names = [''Walk''], should_write_keyframes = True, should_write_metadata = True,
      action_name_prefix = [], bone_mapping_mode = ''CASE_INSENSITIVE'',
      fps_source = ''CUSTOM'', fps_custom = 60, sequence_bone_flags = Map.empty\<rparr>"

text \<open>
  An armature of three bones, Root, Spine (child of Root) and Hand (child of Spine); the
  import bones and the mappings that the PSA bones Root, Spine and the PSA bones Root,
  Hand, Tail give for it.
\<close>

definition root_bone :: armature_bone where
  "root_bone = ArmatureBone ''Root'' \<lparr>vx = 0, vy = 0, vz = 1\<rparr> Quaternion1 None"

definition spine_bone :: armature_bone where
  "spine_bone =
     ArmatureBone ''Spine'' \<lparr>vx = 0, vy = 0, vz = 3\<rparr> \<lparr>qw = 0, qx = 1, qy = 0, qz = 0\<rparr>
       (Some root_bone)"

definition hand_bone :: armature_bone where
  "hand_bone =
     ArmatureBone ''Hand'' \<lparr>vx = 1, vy = 0, vz = 3\<rparr> \<lparr>qw = 0, qx = 0, qy = 1, qz = 0\<rparr>
       (Some spine_bone)"

definition example_bones :: "armature_bone list" where
  "example_bones = [root_bone, spine_bone, hand_bone]"

definition root_import_bone :: ImportBone where
  "root_import_bone =
     \<lparr>psa_bone = 0, parent = None, armature_bone = root_bone,
      original_location = \<lparr>vx = 0, vy = 0, vz = 1\<rparr>,
      original_rotation = \<lparr>qw = 1, qx = 0, qy = 0, qz = 0\<rparr>,
      post_rotation = \<lparr>qw = 1, qx = 0, qy = 0, qz = 0\<rparr>, fcurves = []\<rparr>"

definition spine_import_bone :: ImportBone where
  "spine_import_bone =
     \<lparr>psa_bone = 1, parent = Some 0, armature_bone = spine_bone,
      original_location = \<lparr>vx = 0, vy = 0, vz = 2\<rparr>,
      original_rotation = \<lparr>qw = 0, qx = - 1, qy = 0, qz = 0\<rparr>,
      post_rotation = \<lparr>qw = 0, qx = 1, qy = 0, qz = 0\<rparr>, fcurves = []\<rparr>"

definition hand_import_bone :: ImportBone where
  "hand_import_bone =
     \<lparr>psa_bone = 1, parent = None, armature_bone = hand_bone,
      original_location = \<lparr>vx = 1, vy = 0, vz = 3\<rparr>,
      original_rotation = \<lparr>qw = 0, qx = 0, qy = 1, qz = 0\<rparr>,
      post_rotation = \<lparr>qw = 0, qx = 0, qy = - 1, qz = 0\<rparr>, fcurves = []\<rparr>"

definition root_spine_mapping :: bone_mapping where
  "root_spine_mapping =
     \<lparr>psa_to_armature_bone_indices = [(0, 0), (1, 1)],
      armature_to_psa_bone_indices = [(0, 0), (1, 1)],
      psa_bone_names = [''Root'', ''Spine''], duplicate_mappings = []\<rparr>"

definition root_hand_mapping :: bone_mapping where
  "root_hand_mapping =
     \<lparr>psa_to_armature_bone_indices = [(0, 0), (1, 2)],
      armature_to_psa_bone_indices = [(0, 0), (2, 1)],
      psa_bone_names = [''Root'', ''Hand'', ''Tail''], duplicate_mappings = []\<rparr>"

text \<open>
  An armature object, a reader and the constants of \<^verbatim>\<open>psa/config\<close> for the examples;
  the mapping that the PSA bones Root, root, Tail, Jaw, Tail give case-insensitively.
\<close>

definition example_armature :: armature_object where
  "example_armature = \<lparr>object_name = ''Armature'', data_bones = example_bones\<rparr>"

definition example_reader :: PsaReader where
  "example_reader =
     \<lparr>reader_bones = [''Root'', ''root'', ''Tail'', ''Jaw'', ''Tail''],
      reader_sequences = [''Walk'' \<mapsto> \<lparr>sequence_name = ''Walk'', fps = 30, frame_count = 6\<rparr>],
      read_sequence_data_matrix = (\<lambda>_ _. (Quaternion1, Vector0))\<rparr>"

definition example_config :: config where
  "example_config = \<lparr>REMOVE_TRACK_LOCATION = 1, REMOVE_TRACK_ROTATION = 2\<rparr>"

definition root_duplicate_mapping :: bone_mapping where
  "root_duplicate_mapping =
     \<lparr>psa_to_armature_bone_indices = [(0, 0)],
      armature_to_psa_bone_indices = [(0, 0)],
      psa_bone_names = [''Root'', ''Root'', ''Tail'', ''Jaw'', ''Tail''],
      duplicate_mappings = [(1, 0, 0)]\<rparr>"

text \<open>A sequence of six frames, stored at 30 frames per second.\<close>

definition walk_sequence :: Sequence where
  "walk_sequence = \<lparr>sequence_name = ''Walk'', fps = 30, frame_count = 6\<rparr>"

section \<open>The bone mapping loop\<close>

lemma list_index_None: "list_index xs x = None \<longleftrightarrow> x \<notin> set xs"
  by (induction xs) auto

lemma list_index_Some:
  "list_index xs x = Some i \<Longrightarrow> i < length xs \<and> xs ! i = x \<and> (\<forall>j<i. xs ! j \<noteq> x)"
proof (induction xs arbitrary: i)
  case Nil
  then show ?case by simp
next
  case (Cons y ys)
  show ?case
  proof (cases "y = x")
    case True
    with Cons.prems show ?thesis by simp
  next
    case False
    with Cons.prems obtain k where k: "list_index ys x = Some k" "i = Suc k"
      by auto
    from Cons.IH [OF k(1)] have "k < length ys" "ys ! k = x" "\<forall>j<k. ys ! j \<noteq> x"
      by auto
    with False k(2) show ?thesis
      by (auto simp: nth_Cons split: nat.splits)
  qed
qed

lemma list_index_snoc:
  "list_index (xs @ [y]) x =
     (case list_index xs x of
        Some i \<Rightarrow> Some i
      | None \<Rightarrow> if y = x then Some (length xs) else None)"
  by (induction xs) (auto split: option.splits)

lemma update_fresh: "k \<notin> fst ` set al \<Longrightarrow> AList.update k v al = al @ [(k, v)]"
  by (induction al) auto

lemma claimant_snoc:
  "claimant lower mode arm (ns @ [n]) t =
     (case claimant lower mode arm ns t of
        Some s \<Rightarrow> Some s
      | None \<Rightarrow> if get_armature_bone_index_for_psa_bone lower n arm mode = Some t
                then Some (length ns) else None)"
  by (auto simp: claimant_def list_index_snoc split: option.splits)

lemma claimant_Some:
  "claimant lower mode arm ns t = Some s \<Longrightarrow>
     s < length ns \<and> get_armature_bone_index_for_psa_bone lower (ns ! s) arm mode = Some t \<and>
     (\<forall>k<s. get_armature_bone_index_for_psa_bone lower (ns ! k) arm mode \<noteq> Some t)"
  unfolding claimant_def by (drule list_index_Some) auto

lemma map_psa_bones_snoc:
  "map_psa_bones lower mode arm (xs @ [(i, n)]) st =
     (case map_psa_bones lower mode arm xs st of
        Inl e \<Rightarrow> Inl e
      | Inr st' \<Rightarrow> map_psa_bone lower mode arm i n st')"
  by (induction xs arbitrary: st) (auto split: sum.splits)

lemma scan_inv_empty: "scan_inv lower mode arm [] empty_bone_mapping"
  by (simp add: scan_inv_def empty_bone_mapping_def claimant_def)

lemma map_psa_bone_inv:
  assumes inv: "scan_inv lower mode arm ns st'"
    and step: "map_psa_bone lower mode arm (length ns) n st' = Inr st"
  shows "scan_inv lower mode arm (ns @ [n]) st"
proof (cases "get_armature_bone_index_for_psa_bone lower n arm mode")
  case None
  from step None have st: "st = st'\<lparr>psa_bone_names := psa_bone_names st' @ [n]\<rparr>"
    by (simp add: map_psa_bone_def)
  have cl: "claimant lower mode arm (ns @ [n]) t = claimant lower mode arm ns t" for t
    by (simp add: claimant_snoc None split: option.splits)
  have 1: "psa_bone_names st = map (resolved_name lower mode arm) (ns @ [n])"
    using inv None by (simp add: st scan_inv_def resolved_name_def)
  have 5: "(k, t, s) \<in> set (duplicate_mappings st) \<longleftrightarrow>
        k < length (ns @ [n]) \<and> get_armature_bone_index_for_psa_bone lower ((ns @ [n]) ! k) arm mode = Some t \<and>
        claimant lower mode arm (ns @ [n]) t = Some s \<and> s < k" for k t s
    using inv None by (auto simp: st scan_inv_def cl nth_append less_Suc_eq)
  have 6: "(i, j) \<in> set (psa_to_armature_bone_indices st) \<longleftrightarrow>
        i < length (ns @ [n]) \<and>
        (\<exists>t. get_armature_bone_index_for_psa_bone lower ((ns @ [n]) ! i) arm mode = Some t \<and>
             claimant lower mode arm (ns @ [n]) t = Some i) \<and>
        list_index arm ((ns @ [n]) ! i) = Some j" for i j
    using inv None by (auto simp: st scan_inv_def cl nth_append less_Suc_eq)
  have 7: "claimant lower mode arm (ns @ [n]) t = Some s \<Longrightarrow>
             list_index arm ((ns @ [n]) ! s) \<noteq> None" for t s
  proof -
    assume a: "claimant lower mode arm (ns @ [n]) t = Some s"
    then have c: "claimant lower mode arm ns t = Some s" by (simp add: cl)
    from claimant_Some [OF c] have "s < length ns" by simp
    with inv c show ?thesis by (simp add: scan_inv_def nth_append)
  qed
  have rest: "distinct (map fst (armature_to_psa_bone_indices st))"
    "distinct (map fst (psa_to_armature_bone_indices st))"
    "map_of (armature_to_psa_bone_indices st) u = claimant lower mode arm (ns @ [n]) u" for u
    using inv by (simp_all add: st scan_inv_def cl)
  show ?thesis
    unfolding scan_inv_def using 1 5 6 7 rest by blast
next
  case (Some t)
  show ?thesis
  proof (cases "map_of (armature_to_psa_bone_indices st') t")
    case None
    note unclaimed = None
    with inv have cn: "claimant lower mode arm ns t = None"
      by (simp add: scan_inv_def)
    from step Some unclaimed obtain j where j: "list_index arm n = Some j"
      and st: "st = st'\<lparr>psa_to_armature_bone_indices :=
                            AList.update (length ns) j (psa_to_armature_bone_indices st'),
                        armature_to_psa_bone_indices :=
                            AList.update t (length ns) (armature_to_psa_bone_indices st'),
                        psa_bone_names := psa_bone_names st' @ [arm ! t]\<rparr>"
      by (auto simp: map_psa_bone_def split: option.splits)
    have cl: "claimant lower mode arm (ns @ [n]) u =
                (if u = t then Some (length ns) else claimant lower mode arm ns u)" for u
      using cn Some by (auto simp: claimant_snoc split: option.splits)
    have fresh: "length ns \<notin> fst ` set (psa_to_armature_bone_indices st')"
      using inv by (force simp: scan_inv_def)
    have 1: "psa_bone_names st = map (resolved_name lower mode arm) (ns @ [n])"
      using inv Some by (simp add: st scan_inv_def resolved_name_def)
    have 2: "distinct (map fst (armature_to_psa_bone_indices st))"
      using inv by (simp add: st scan_inv_def distinct_update)
    have 3: "distinct (map fst (psa_to_armature_bone_indices st))"
      using inv by (simp add: st scan_inv_def distinct_update)
    have 4: "map_of (armature_to_psa_bone_indices st) u = claimant lower mode arm (ns @ [n]) u" for u
      using inv by (simp add: st scan_inv_def update_conv' cl)
    have lt: "claimant lower mode arm ns u = Some s \<Longrightarrow> s < length ns" for u s
      by (drule claimant_Some) simp
    have 5: "(k, u, s) \<in> set (duplicate_mappings st) \<longleftrightarrow>
        k < length (ns @ [n]) \<and> get_armature_bone_index_for_psa_bone lower ((ns @ [n]) ! k) arm mode = Some u \<and>
        claimant lower mode arm (ns @ [n]) u = Some s \<and> s < k" for k u s
    proof -
      have "(k, u, s) \<in> set (duplicate_mappings st) \<longleftrightarrow>
              k < length ns \<and> get_armature_bone_index_for_psa_bone lower (ns ! k) arm mode = Some u \<and>
              claimant lower mode arm ns u = Some s \<and> s < k"
        using inv by (simp add: st scan_inv_def)
      also have "\<dots> \<longleftrightarrow> k < length (ns @ [n]) \<and> get_armature_bone_index_for_psa_bone lower ((ns @ [n]) ! k) arm mode = Some u \<and>
        claimant lower mode arm (ns @ [n]) u = Some s \<and> s < k"
        using cn Some by (auto simp: cl nth_append less_Suc_eq)
      finally show ?thesis .
    qed
    have set_upd: "(i, j') \<in> set (AList.update (length ns) j (psa_to_armature_bone_indices st')) \<longleftrightarrow>
                     (i = length ns \<and> j' = j) \<or> (i, j') \<in> set (psa_to_armature_bone_indices st')" for i j'
    proof -
      have "AList.update (length ns) j (psa_to_armature_bone_indices st') =
              psa_to_armature_bone_indices st' @ [(length ns, j)]"
        using fresh by (rule update_fresh)
      then show ?thesis by auto
    qed
    have 6: "(i, j') \<in> set (psa_to_armature_bone_indices st) \<longleftrightarrow>
        i < length (ns @ [n]) \<and>
        (\<exists>u. get_armature_bone_index_for_psa_bone lower ((ns @ [n]) ! i) arm mode = Some u \<and>
             claimant lower mode arm (ns @ [n]) u = Some i) \<and>
        list_index arm ((ns @ [n]) ! i) = Some j'" for i j'
    proof -
      have old: "(i, j') \<in> set (psa_to_armature_bone_indices st') \<longleftrightarrow>
        i < length ns \<and>
        (\<exists>u. get_armature_bone_index_for_psa_bone lower (ns ! i) arm mode = Some u \<and>
             claimant lower mode arm ns u = Some i) \<and>
        list_index arm (ns ! i) = Some j'"
        using inv by (simp add: scan_inv_def)
      show ?thesis
      proof (cases "i = length ns")
        case True
        then show ?thesis using Some j old by (auto simp: st set_upd cl)
      next
        case False
        have eqv: "claimant lower mode arm (ns @ [n]) u = Some i \<longleftrightarrow>
                     claimant lower mode arm ns u = Some i" for u
          using False cn by (simp add: cl)
        show ?thesis
        proof (cases "i < length ns")
          case True
          then show ?thesis using False old
            by (simp add: st set_upd eqv nth_append)
        next
          case ge: False
          then show ?thesis using False old
            by (simp add: st set_upd)
        qed
      qed
    qed
    have 7: "claimant lower mode arm (ns @ [n]) u = Some s \<Longrightarrow>
               list_index arm ((ns @ [n]) ! s) \<noteq> None" for u s
    proof (cases "u = t")
      case True
      assume "claimant lower mode arm (ns @ [n]) u = Some s"
      with True have "s = length ns" by (simp add: cl)
      with j show ?thesis by simp
    next
      case False
      assume "claimant lower mode arm (ns @ [n]) u = Some s"
      with False have c: "claimant lower mode arm ns u = Some s" by (simp add: cl)
      from lt [OF c] inv c show ?thesis by (simp add: scan_inv_def nth_append)
    qed
    show ?thesis
      unfolding scan_inv_def using 1 2 3 4 5 6 7 by blast
  next
    case (Some s)
    note claimed = Some
    note match = \<open>get_armature_bone_index_for_psa_bone lower n arm mode = Some t\<close>
    from inv claimed have cs: "claimant lower mode arm ns t = Some s"
      by (simp add: scan_inv_def)
    from claimant_Some [OF cs] have s_lt: "s < length ns" by simp
    from step match claimed
    have st: "st = st'\<lparr>duplicate_mappings := duplicate_mappings st' @ [(length ns, t, s)],
                        psa_bone_names := psa_bone_names st' @ [arm ! t]\<rparr>"
      by (simp add: map_psa_bone_def)
    have cl: "claimant lower mode arm (ns @ [n]) u = claimant lower mode arm ns u" for u
      using cs match by (auto simp: claimant_snoc split: option.splits)
    have lt: "claimant lower mode arm ns u = Some s' \<Longrightarrow> s' < length ns" for u s'
      by (drule claimant_Some) simp
    have 1: "psa_bone_names st = map (resolved_name lower mode arm) (ns @ [n])"
      using inv match by (simp add: st scan_inv_def resolved_name_def)
    have 5: "(k, u, s') \<in> set (duplicate_mappings st) \<longleftrightarrow>
        k < length (ns @ [n]) \<and> get_armature_bone_index_for_psa_bone lower ((ns @ [n]) ! k) arm mode = Some u \<and>
        claimant lower mode arm (ns @ [n]) u = Some s' \<and> s' < k" for k u s'
    proof -
      have old: "(k, u, s') \<in> set (duplicate_mappings st') \<longleftrightarrow>
              k < length ns \<and> get_armature_bone_index_for_psa_bone lower (ns ! k) arm mode = Some u \<and>
              claimant lower mode arm ns u = Some s' \<and> s' < k"
        using inv by (simp add: scan_inv_def)
      show ?thesis
      proof (cases "k = length ns")
        case True
        then show ?thesis using old cs match s_lt by (auto simp: st cl)
      next
        case False
        then show ?thesis using old by (auto simp: st cl nth_append less_Suc_eq)
      qed
    qed
    have 6: "(i, j') \<in> set (psa_to_armature_bone_indices st) \<longleftrightarrow>
        i < length (ns @ [n]) \<and>
        (\<exists>u. get_armature_bone_index_for_psa_bone lower ((ns @ [n]) ! i) arm mode = Some u \<and>
             claimant lower mode arm (ns @ [n]) u = Some i) \<and>
        list_index arm ((ns @ [n]) ! i) = Some j'" for i j'
    proof -
      have old: "(i, j') \<in> set (psa_to_armature_bone_indices st') \<longleftrightarrow>
        i < length ns \<and>
        (\<exists>u. get_armature_bone_index_for_psa_bone lower (ns ! i) arm mode = Some u \<and>
             claimant lower mode arm ns u = Some i) \<and>
        list_index arm (ns ! i) = Some j'"
        using inv by (simp add: scan_inv_def)
      show ?thesis
      proof (cases "i = length ns")
        case True
        then show ?thesis using old cs match s_lt by (auto simp: st cl)
      next
        case False
        then show ?thesis using old by (auto simp: st cl nth_append less_Suc_eq)
      qed
    qed
    have rest: "distinct (map fst (armature_to_psa_bone_indices st))"
      "distinct (map fst (psa_to_armature_bone_indices st))"
      "map_of (armature_to_psa_bone_indices st) u = claimant lower mode arm (ns @ [n]) u" for u
      using inv by (simp_all add: st scan_inv_def cl)
    have 7: "claimant lower mode arm (ns @ [n]) u = Some s' \<Longrightarrow>
               list_index arm ((ns @ [n]) ! s') \<noteq> None" for u s'
    proof -
      assume "claimant lower mode arm (ns @ [n]) u = Some s'"
      then have c: "claimant lower mode arm ns u = Some s'" by (simp add: cl)
      from lt [OF c] inv c show ?thesis by (simp add: scan_inv_def nth_append)
    qed
    show ?thesis
      unfolding scan_inv_def using 1 5 6 7 rest by blast
  qed
qed

lemma map_psa_bones_inv:
  "map_psa_bones lower mode arm (enumerate 0 ns) empty_bone_mapping = Inr st \<Longrightarrow>
     scan_inv lower mode arm ns st"
proof (induction ns arbitrary: st rule: rev_induct)
  case Nil
  then show ?case using scan_inv_empty by simp
next
  case (snoc n ns)
  from snoc.prems obtain st' where
    st': "map_psa_bones lower mode arm (enumerate 0 ns) empty_bone_mapping = Inr st'"
    and step: "map_psa_bone lower mode arm (length ns) n st' = Inr st"
    by (auto simp: enumerate_append_eq map_psa_bones_snoc split: sum.splits)
  from map_psa_bone_inv [OF snoc.IH [OF st'] step] show ?case .
qed

lemma armature_bone_index_from_Cons:
  "armature_bone_index_from lower n mode i (a # names) =
     (if names_match lower mode n a then Some i
      else armature_bone_index_from lower n mode (Suc i) names)"
  by (simp add: names_match_def)

lemma armature_bone_index_from_eq:
  "armature_bone_index_from lower n mode i names =
     map_option (\<lambda>k. i + k) (list_index (map (names_match lower mode n) names) True)"
proof (induction names arbitrary: i)
  case Nil
  show ?case by simp
next
  case (Cons a names)
  show ?case
    by (cases "list_index (map (names_match lower mode n) names) True")
       (simp_all add: armature_bone_index_from_Cons Cons.IH del: armature_bone_index_from.simps)
qed

lemma get_index_eq:
  "get_armature_bone_index_for_psa_bone lower n names mode =
     list_index (map (names_match lower mode n) names) True"
  by (simp add: get_armature_bone_index_for_psa_bone_def armature_bone_index_from_eq option.map_ident)

lemma map_psa_bones_append:
  "map_psa_bones lower mode arm (xs @ ys) st =
     (case map_psa_bones lower mode arm xs st of
        Inl e \<Rightarrow> Inl e
      | Inr st' \<Rightarrow> map_psa_bones lower mode arm ys st')"
  by (induction xs arbitrary: st) (auto split: sum.splits)

lemma list_index_append_Some:
  "list_index xs x = Some i \<Longrightarrow> list_index (xs @ ys) x = Some i"
  by (induction xs arbitrary: i) auto

lemma claimant_take:
  "claimant lower mode arm (take j ns) t = Some s \<Longrightarrow> claimant lower mode arm ns t = Some s"
proof -
  assume a: "claimant lower mode arm (take j ns) t = Some s"
  have "ns = take j ns @ drop j ns" by simp
  then have "claimant lower mode arm ns t =
               list_index (map (\<lambda>n. get_armature_bone_index_for_psa_bone lower n arm mode) (take j ns)
                 @ map (\<lambda>n. get_armature_bone_index_for_psa_bone lower n arm mode) (drop j ns)) (Some t)"
    unfolding claimant_def by (metis map_append)
  with a show ?thesis
    by (simp add: claimant_def list_index_append_Some)
qed

lemma map_psa_bones_prefix:
  assumes "map_psa_bones lower mode arm (enumerate 0 ns) empty_bone_mapping = Inr st"
  shows "\<exists>st'. map_psa_bones lower mode arm (enumerate 0 (take j ns)) empty_bone_mapping = Inr st'"
proof -
  have "enumerate 0 ns = enumerate 0 (take j ns) @ enumerate (length (take j ns)) (drop j ns)"
    by (metis append_take_drop_id enumerate_append_eq add_0)
  with assms show ?thesis
    by (auto simp: map_psa_bones_append split: sum.splits)
qed

lemma scan_ex:
 "map_psa_bones ascii_lower ''CASE_INSENSITIVE'' [''Pelvis'', ''Spine'']
       (enumerate 0 [''Pelvis'', ''Spine'', ''spine'']) empty_bone_mapping =
     Inr \<lparr>psa_to_armature_bone_indices = [(0, 0), (1, 1)],
          armature_to_psa_bone_indices = [(0, 0), (1, 1)],
          psa_bone_names = [''Pelvis'', ''Spine'', ''Spine''],
          duplicate_mappings = [(2, 1, 1)]\<rparr>"
  by (simp add: map_psa_bone_def get_armature_bone_index_for_psa_bone_def ascii_lower_def
        ascii_lower_char_def empty_bone_mapping_def)

lemma names_match_refl: "names_match lower mode n n"
  by (simp add: names_match_def)

lemma get_index_None:
  "get_armature_bone_index_for_psa_bone lower n arm mode = None \<longleftrightarrow>
     (\<forall>a\<in>set arm. \<not> names_match lower mode n a)"
  by (auto simp: get_index_eq list_index_None)

lemma get_index_None_notin:
  "get_armature_bone_index_for_psa_bone lower n arm mode = None \<Longrightarrow> n \<notin> set arm"
  using names_match_refl by (auto simp: get_index_None)

lemma get_index_Some:
  "get_armature_bone_index_for_psa_bone lower n arm mode = Some t \<Longrightarrow>
     t < length arm \<and> names_match lower mode n (arm ! t) \<and>
     (\<forall>j<t. \<not> names_match lower mode n (arm ! j))"
  unfolding get_index_eq by (drule list_index_Some) auto

lemma resolved_names_missing:
  "set (map (resolved_name lower mode arm) ns) - set arm =
     {n \<in> set ns. get_armature_bone_index_for_psa_bone lower n arm mode = None}"
proof (intro equalityI subsetI)
  fix x
  assume "x \<in> set (map (resolved_name lower mode arm) ns) - set arm"
  then obtain n where n: "n \<in> set ns" "x = resolved_name lower mode arm n" "x \<notin> set arm"
    by auto
  show "x \<in> {n \<in> set ns. get_armature_bone_index_for_psa_bone lower n arm mode = None}"
  proof (cases "get_armature_bone_index_for_psa_bone lower n arm mode")
    case None
    with n show ?thesis by (simp add: resolved_name_def)
  next
    case (Some t)
    from get_index_Some [OF Some] have "arm ! t \<in> set arm" by simp
    with n Some show ?thesis by (simp add: resolved_name_def)
  qed
next
  fix x
  assume "x \<in> {n \<in> set ns. get_armature_bone_index_for_psa_bone lower n arm mode = None}"
  then have x: "x \<in> set ns" "get_armature_bone_index_for_psa_bone lower x arm mode = None"
    by auto
  from x(2) have "resolved_name lower mode arm x = x" by (simp add: resolved_name_def)
  with x(1) have "x \<in> set (map (resolved_name lower mode arm) ns)" by force
  with get_index_None_notin [OF x(2)]
  show "x \<in> set (map (resolved_name lower mode arm) ns) - set arm" by simp
qed

text \<open>
  The loop raises only at line 101: it returns when every PSA bone name that matches is
  itself an armature bone name, as it is in every mode but the case-insensitive one.
\<close>

lemma map_psa_bone_returns:
  assumes "get_armature_bone_index_for_psa_bone lower n arm mode \<noteq> None \<longrightarrow> n \<in> set arm"
  shows "\<exists>st'. map_psa_bone lower mode arm i n st = Inr st'"
proof (cases "get_armature_bone_index_for_psa_bone lower n arm mode")
  case None
  then show ?thesis by (simp add: map_psa_bone_def)
next
  case (Some t)
  with assms have "list_index arm n \<noteq> None" by (simp add: list_index_None)
  then obtain j where "list_index arm n = Some j" by auto
  with Some show ?thesis
    by (cases "map_of (armature_to_psa_bone_indices st) t") (simp_all add: map_psa_bone_def)
qed

lemma map_psa_bones_returns:
  "\<forall>n\<in>snd ` set xs. get_armature_bone_index_for_psa_bone lower n arm mode \<noteq> None \<longrightarrow> n \<in> set arm
     \<Longrightarrow> \<exists>st'. map_psa_bones lower mode arm xs st = Inr st'"
proof (induction xs arbitrary: st)
  case Nil
  show ?case by simp
next
  case (Cons x xs)
  obtain i n where x: "x = (i, n)" by (cases x)
  from Cons.prems x
  have "get_armature_bone_index_for_psa_bone lower n arm mode \<noteq> None \<longrightarrow> n \<in> set arm"
    by simp
  from map_psa_bone_returns [OF this] obtain st1 where
    s: "map_psa_bone lower mode arm i n st = Inr st1" by blast
  from Cons.prems have "\<forall>n\<in>snd ` set xs.
      get_armature_bone_index_for_psa_bone lower n arm mode \<noteq> None \<longrightarrow> n \<in> set arm"
    by simp
  from Cons.IH [OF this] obtain st' where "map_psa_bones lower mode arm xs st1 = Inr st'"
    by blast
  with s show ?case by (simp add: x)
qed

lemma exact_match_in_armature:
  assumes "mode \<noteq> ''CASE_INSENSITIVE''"
  shows "get_armature_bone_index_for_psa_bone lower n arm mode \<noteq> None \<longrightarrow> n \<in> set arm"
  using assms by (auto simp: get_index_None names_match_def)

lemma map_psa_bones_exact_returns:
  assumes "mode \<noteq> ''CASE_INSENSITIVE''"
  shows "\<exists>st'. map_psa_bones lower mode arm xs st = Inr st'"
  by (rule map_psa_bones_returns) (simp add: exact_match_in_armature [OF assms])

text \<open>
  The warnings of lines 110-116: a warning list of the mapping holds a duplicate-mapping
  warning exactly for the triples of \<^verbatim>\<open>duplicate_mappings\<close>.
\<close>

lemma duplicate_mapping_warning_iff:
  "DuplicateMapping k a t b s c \<in>
       set (duplicate_mapping_warnings names arm dups @ missing_bones_warnings obj names arm) \<longleftrightarrow>
     (k, t, s) \<in> set dups \<and> a = names ! k \<and> b = arm ! t \<and> c = names ! s"
  by (force simp: duplicate_mapping_warnings_def missing_bones_warnings_def Let_def)

lemma spine_example_warnings:
  "map_bones ascii_lower ''CASE_INSENSITIVE'' obj [''Pelvis'', ''Spine'']
       [''Pelvis'', ''Spine'', ''spine''] =
     Inr (\<lparr>psa_to_armature_bone_indices = [(0, 0), (1, 1)],
           armature_to_psa_bone_indices = [(0, 0), (1, 1)],
           psa_bone_names = [''Pelvis'', ''Spine'', ''Spine''],
           duplicate_mappings = [(2, 1, 1)]\<rparr>,
          [DuplicateMapping 2 ''Spine'' 1 ''Spine'' 1 ''Spine''])"
  by (simp only: map_bones_def scan_ex)
     (simp add: duplicate_mapping_warnings_def missing_bones_warnings_def missing_bone_names_def)

lemma duplicate_mappings_are_warned:
  assumes scan: "map_psa_bones lower mode arm (enumerate 0 ns) empty_bone_mapping = Inr st"
  shows "\<exists>ws. map_bones lower mode obj arm ns = Inr (st, ws) \<and>
         (\<forall>k t s. (k, t, s) \<in> set (duplicate_mappings st) \<longrightarrow>
            DuplicateMapping k (psa_bone_names st ! k) t (arm ! t) s (psa_bone_names st ! s)
              \<in> set ws) \<and>
         (\<forall>k a t b s c. DuplicateMapping k a t b s c \<in> set ws \<longrightarrow>
            (k, t, s) \<in> set (duplicate_mappings st) \<and>
            a = psa_bone_names st ! k \<and> b = arm ! t \<and> c = psa_bone_names st ! s) \<and>
         (\<forall>k t s. k < length ns \<and>
            get_armature_bone_index_for_psa_bone lower (ns ! k) arm mode = Some t \<and>
            map_of (armature_to_psa_bone_indices st) t = Some s \<and> s < k \<longrightarrow>
            DuplicateMapping k (arm ! t) t (arm ! t) s (arm ! t) \<in> set ws)"
proof -
  let ?gi = "\<lambda>n. get_armature_bone_index_for_psa_bone lower n arm mode"
  let ?ws = "duplicate_mapping_warnings (psa_bone_names st) arm (duplicate_mappings st) @
             missing_bones_warnings obj (psa_bone_names st) arm"
  from map_psa_bones_inv [OF scan] have inv: "scan_inv lower mode arm ns st" .
  then have a2p: "map_of (armature_to_psa_bone_indices st) t = claimant lower mode arm ns t" for t
    by (simp add: scan_inv_def)
  from inv have dups: "(k, t, s) \<in> set (duplicate_mappings st) \<longleftrightarrow>
        k < length ns \<and> ?gi (ns ! k) = Some t \<and> claimant lower mode arm ns t = Some s \<and> s < k" for k t s
    by (simp add: scan_inv_def)
  from inv have names: "psa_bone_names st = map (resolved_name lower mode arm) ns"
    by (simp add: scan_inv_def)
  have mb: "map_bones lower mode obj arm ns = Inr (st, ?ws)"
    using scan by (simp add: map_bones_def)
  have 1: "\<forall>k t s. (k, t, s) \<in> set (duplicate_mappings st) \<longrightarrow>
            DuplicateMapping k (psa_bone_names st ! k) t (arm ! t) s (psa_bone_names st ! s)
              \<in> set ?ws"
    by (simp del: set_append add: duplicate_mapping_warning_iff)
  have 2: "\<forall>k a t b s c. DuplicateMapping k a t b s c \<in> set ?ws \<longrightarrow>
            (k, t, s) \<in> set (duplicate_mappings st) \<and>
            a = psa_bone_names st ! k \<and> b = arm ! t \<and> c = psa_bone_names st ! s"
    by (simp del: set_append add: duplicate_mapping_warning_iff)
  have 3: "DuplicateMapping k (arm ! t) t (arm ! t) s (arm ! t) \<in> set ?ws"
    if h: "k < length ns \<and> ?gi (ns ! k) = Some t \<and>
           map_of (armature_to_psa_bone_indices st) t = Some s \<and> s < k" for k t s
  proof -
    from h have c: "claimant lower mode arm ns t = Some s" by (simp add: a2p)
    with h have d: "(k, t, s) \<in> set (duplicate_mappings st)" by (simp add: dups)
    from claimant_Some [OF c] have s: "s < length ns" "?gi (ns ! s) = Some t" by simp_all
    from h have "psa_bone_names st ! k = arm ! t"
      by (simp add: names resolved_name_def)
    moreover from s have "psa_bone_names st ! s = arm ! t"
      by (simp add: names resolved_name_def)
    ultimately show ?thesis using d
      by (simp del: set_append add: duplicate_mapping_warning_iff)
  qed
  from mb 1 2 3 show ?thesis by blast
qed

section \<open>The import bones\<close>

lemma bones_getitem_Inr:
  "bones_getitem bs n = Inr a \<Longrightarrow> a \<in> set bs \<and> bone_name a = n"
  by (auto simp: bones_getitem_def find_Some_iff split: option.splits)

lemma bones_getitem_ex:
  "n \<in> bone_name ` set bs \<Longrightarrow> \<exists>a. bones_getitem bs n = Inr a"
proof -
  assume "n \<in> bone_name ` set bs"
  then have "find (\<lambda>b. bone_name b = n) bs \<noteq> None"
    by (auto simp: find_None_iff)
  then show ?thesis by (auto simp: bones_getitem_def)
qed

lemma create_import_bones_snoc:
  "create_import_bones bs p2a (xs @ [(i, n)]) acc =
     (case create_import_bones bs p2a xs acc of
        Inl e \<Rightarrow> Inl e
      | Inr (ibs, d) \<Rightarrow>
          (if map_of p2a i = None then Inr (ibs @ [None], d)
           else (case bones_getitem bs n of
                   Inl e \<Rightarrow> Inl e
                 | Inr a \<Rightarrow> Inr (ibs @ [Some (new_ImportBone i a)], d(n \<mapsto> length ibs)))))"
proof (induction xs arbitrary: acc)
  case Nil
  show ?case by (cases acc) (simp split: sum.splits)
next
  case (Cons x xs)
  show ?case
    by (cases acc; cases x) (auto simp: Cons.IH split: sum.splits)
qed

lemma create_import_bones_created:
  "create_import_bones bs p2a (enumerate 0 names) ([], Map.empty) = Inr r \<Longrightarrow>
     created bs p2a names r"
proof (induction names arbitrary: r rule: rev_induct)
  case Nil
  then show ?case by (auto simp: created_def)
next
  case (snoc n names)
  from snoc.prems obtain ibs d where
    prev: "create_import_bones bs p2a (enumerate 0 names) ([], Map.empty) = Inr (ibs, d)"
    and step: "(if map_of p2a (length names) = None then Inr (ibs @ [None], d)
           else (case bones_getitem bs n of
                   Inl e \<Rightarrow> Inl e
                 | Inr a \<Rightarrow> Inr (ibs @ [Some (new_ImportBone (length names) a)],
                             d(n \<mapsto> length ibs)))) = Inr r"
    by (auto simp: enumerate_append_eq create_import_bones_snoc split: sum.splits)
  from snoc.IH [OF prev] have IH: "created bs p2a names (ibs, d)" .
  then have len: "length ibs = length names" by (simp add: created_def)
  show ?case
  proof (cases "map_of p2a (length names) = None")
    case True
    with step have r: "r = (ibs @ [None], d)" by simp
    show ?thesis
      unfolding created_def r using IH True len
      by (auto simp: created_def nth_append less_Suc_eq)
  next
    case False
    with step obtain a where a: "bones_getitem bs n = Inr a"
      and r: "r = (ibs @ [Some (new_ImportBone (length names) a)], d(n \<mapsto> length ibs))"
      by (auto split: sum.splits)
    show ?thesis
      unfolding created_def r using IH False len a
      by (auto simp: created_def nth_append less_Suc_eq)
  qed
qed

lemma create_import_bones_ex:
  assumes "\<forall>i<length names. map_of p2a i \<noteq> None \<longrightarrow> names ! i \<in> bone_name ` set bs"
  shows "\<exists>r. create_import_bones bs p2a (enumerate 0 names) ([], Map.empty) = Inr r"
  using assms
proof (induction names rule: rev_induct)
  case Nil
  show ?case by simp
next
  case (snoc n names)
  have "\<forall>i<length names. map_of p2a i \<noteq> None \<longrightarrow> names ! i \<in> bone_name ` set bs"
    using snoc.prems by (auto simp: nth_append less_Suc_eq)
  from snoc.IH [OF this] obtain ibs d where
    prev: "create_import_bones bs p2a (enumerate 0 names) ([], Map.empty) = Inr (ibs, d)"
    by auto
  show ?case
  proof (cases "map_of p2a (length names) = None")
    case True
    with prev show ?thesis
      by (simp add: enumerate_append_eq create_import_bones_snoc)
  next
    case False
    with snoc.prems have "n \<in> bone_name ` set bs"
      by (auto simp: nth_append)
    from bones_getitem_ex [OF this] obtain a where "bones_getitem bs n = Inr a" ..
    with prev False show ?thesis
      by (simp add: enumerate_append_eq create_import_bones_snoc)
  qed
qed

lemma for_each_import_bone_Inr:
  "for_each_import_bone f ibs = Inr ibs' \<Longrightarrow>
     length ibs' = length ibs \<and>
     (\<forall>i<length ibs.
        (ibs ! i = None \<longrightarrow> ibs' ! i = None) \<and>
        (\<forall>b. ibs ! i = Some b \<longrightarrow> (\<exists>b'. f b = Inr b' \<and> ibs' ! i = Some b')))"
proof (induction f ibs arbitrary: ibs' rule: for_each_import_bone.induct)
  case (1 f)
  then show ?case by simp
next
  case (2 f rest)
  from "2.prems" obtain rest' where r: "for_each_import_bone f rest = Inr rest'"
    and i: "ibs' = None # rest'"
    by (auto split: sum.splits)
  from "2.IH" [OF r] show ?case
    by (auto simp: i nth_Cons split: nat.splits)
next
  case (3 f import_bone rest)
  from "3.prems" obtain b' rest' where b: "f import_bone = Inr b'"
    and r: "for_each_import_bone f rest = Inr rest'"
    and i: "ibs' = Some b' # rest'"
    by (auto split: sum.splits)
  from "3.IH" [OF b r] b show ?case
    by (auto simp: i nth_Cons split: nat.splits)
qed

lemma for_each_import_bone_ex:
  "(\<forall>b. Some b \<in> set ibs \<longrightarrow> (\<exists>b'. f b = Inr b')) \<Longrightarrow> \<exists>r. for_each_import_bone f ibs = Inr r"
proof (induction f ibs rule: for_each_import_bone.induct)
  case (1 f)
  show ?case by simp
next
  case (2 f rest)
  then show ?case by auto
next
  case (3 f import_bone rest)
  from "3.prems" obtain b' where b: "f import_bone = Inr b'" by auto
  from "3.IH" [OF b] "3.prems" obtain r where "for_each_import_bone f rest = Inr r" by auto
  with b show ?case by simp
qed

lemma calculate_bind_pose_fresh:
  assumes "parent b0 = None" and "calculate_bind_pose m names d b0 = Inr b"
  shows "armature_bone b = armature_bone b0"
    and "psa_bone b = psa_bone b0"
    and "post_rotation b = conjugated (original_rotation b)"
    and "parent b \<noteq> None \<longleftrightarrow>
           (\<exists>p. bone_parent (armature_bone b0) = Some p \<and> bone_name p \<in> set names)"
    and "parent b = None \<Longrightarrow>
           original_location b = matrix_local_translation (armature_bone b0) \<and>
           original_rotation b = matrix_local_to_quaternion (armature_bone b0)"
    and "parent b \<noteq> None \<Longrightarrow>
           \<exists>p. bone_parent (armature_bone b0) = Some p \<and>
             original_location b =
               Vector_rotate m
                 (Vector_sub (matrix_local_translation (armature_bone b0))
                    (matrix_local_translation p))
                 (conjugated (matrix_local_to_quaternion p)) \<and>
             original_rotation b =
               conjugated
                 (Quaternion_rotate m (matrix_local_to_quaternion (armature_bone b0))
                    (conjugated (matrix_local_to_quaternion p)))"
  using assms
  by (auto simp: calculate_bind_pose_def Let_def split: option.splits if_splits sum.splits)

lemma build_import_bones_Inr:
  assumes "build_import_bones m bs st = Inr ibs"
  shows "length ibs = length (psa_bone_names st)"
    and "i < length ibs \<Longrightarrow>
           (ibs ! i = None \<longleftrightarrow> map_of (psa_to_armature_bone_indices st) i = None)"
    and "i < length ibs \<Longrightarrow> ibs ! i = Some b \<Longrightarrow>
           \<exists>a d. bones_getitem bs (psa_bone_names st ! i) = Inr a \<and>
             calculate_bind_pose m (psa_bone_names st) d (new_ImportBone i a) = Inr b"
proof -
  from assms obtain ibs0 d where
    c: "create_import_bones bs (psa_to_armature_bone_indices st)
          (enumerate 0 (psa_bone_names st)) ([], Map.empty) = Inr (ibs0, d)"
    and f: "for_each_import_bone (calculate_bind_pose m (psa_bone_names st) d) ibs0 = Inr ibs"
    by (auto simp: build_import_bones_def split: sum.splits)
  from create_import_bones_created [OF c]
  have cr: "created bs (psa_to_armature_bone_indices st) (psa_bone_names st) (ibs0, d)" .
  then have len0: "length ibs0 = length (psa_bone_names st)"
    by (simp add: created_def)
  from for_each_import_bone_Inr [OF f]
  have len: "length ibs = length ibs0"
    and each: "\<And>i. i < length ibs0 \<Longrightarrow>
        (ibs0 ! i = None \<longrightarrow> ibs ! i = None) \<and>
        (\<forall>b. ibs0 ! i = Some b \<longrightarrow>
           (\<exists>b'. calculate_bind_pose m (psa_bone_names st) d b = Inr b' \<and> ibs ! i = Some b'))"
    by auto
  show "length ibs = length (psa_bone_names st)"
    using len len0 by simp
  {
    assume i: "i < length ibs"
    then have i0: "i < length (psa_bone_names st)" using len len0 by simp
    show "ibs ! i = None \<longleftrightarrow> map_of (psa_to_armature_bone_indices st) i = None"
    proof (cases "map_of (psa_to_armature_bone_indices st) i = None")
      case True
      with cr i0 have "ibs0 ! i = None" by (simp add: created_def)
      with each [of i] i len True show ?thesis by simp
    next
      case False
      with cr i0 obtain a where "ibs0 ! i = Some (new_ImportBone i a)"
        by (auto simp: created_def)
      with each [of i] i len False show ?thesis by auto
    qed
  }
  {
    assume i: "i < length ibs" and b: "ibs ! i = Some b"
    then have i0: "i < length (psa_bone_names st)" using len len0 by simp
    show "\<exists>a d. bones_getitem bs (psa_bone_names st ! i) = Inr a \<and>
             calculate_bind_pose m (psa_bone_names st) d (new_ImportBone i a) = Inr b"
    proof (cases "map_of (psa_to_armature_bone_indices st) i = None")
      case True
      with cr i0 have "ibs0 ! i = None" by (simp add: created_def)
      with each [of i] i len b show ?thesis by simp
    next
      case False
      with cr i0 obtain a where a: "bones_getitem bs (psa_bone_names st ! i) = Inr a"
        "ibs0 ! i = Some (new_ImportBone i a)"
        by (auto simp: created_def)
      with each [of i] i len b
      have "calculate_bind_pose m (psa_bone_names st) d (new_ImportBone i a) = Inr b"
        by auto
      with a(1) show ?thesis by blast
    qed
  }
qed

lemma new_ImportBone_parent: "parent (new_ImportBone i a) = None"
  and new_ImportBone_armature_bone: "armature_bone (new_ImportBone i a) = a"
  by (simp_all add: new_ImportBone_def)

text \<open>What an import bone of the result of \<open>build_import_bones\<close> is.\<close>

lemma import_bone_bind_pose:
  assumes "build_import_bones m bs st = Inr ibs" and "i < length ibs" and "ibs ! i = Some b"
  shows "armature_bone b \<in> set bs"
    and "bone_name (armature_bone b) = psa_bone_names st ! i"
    and "post_rotation b = conjugated (original_rotation b)"
    and "parent b \<noteq> None \<longleftrightarrow>
           (\<exists>p. bone_parent (armature_bone b) = Some p \<and> bone_name p \<in> set (psa_bone_names st))"
    and "parent b = None \<Longrightarrow>
           original_location b = matrix_local_translation (armature_bone b) \<and>
           original_rotation b = matrix_local_to_quaternion (armature_bone b)"
    and "parent b \<noteq> None \<Longrightarrow>
           \<exists>p. bone_parent (armature_bone b) = Some p \<and>
             original_location b =
               Vector_rotate m
                 (Vector_sub (matrix_local_translation (armature_bone b))
                    (matrix_local_translation p))
                 (conjugated (matrix_local_to_quaternion p)) \<and>
             original_rotation b =
               conjugated
                 (Quaternion_rotate m (matrix_local_to_quaternion (armature_bone b))
                    (conjugated (matrix_local_to_quaternion p)))"
proof -
  from build_import_bones_Inr(3) [OF assms] obtain a d where
    a: "bones_getitem bs (psa_bone_names st ! i) = Inr a"
    and c: "calculate_bind_pose m (psa_bone_names st) d (new_ImportBone i a) = Inr b"
    by blast
  note fresh = calculate_bind_pose_fresh [OF new_ImportBone_parent c]
  from fresh(1) have ab: "armature_bone b = a" by (simp add: new_ImportBone_armature_bone)
  from bones_getitem_Inr [OF a] ab
  show "armature_bone b \<in> set bs" and "bone_name (armature_bone b) = psa_bone_names st ! i"
    by simp_all
  show "post_rotation b = conjugated (original_rotation b)" by (rule fresh(3))
  show "parent b \<noteq> None \<longleftrightarrow>
           (\<exists>p. bone_parent (armature_bone b) = Some p \<and> bone_name p \<in> set (psa_bone_names st))"
    using fresh(4) by (simp add: ab new_ImportBone_armature_bone)
  show "parent b = None \<Longrightarrow>
           original_location b = matrix_local_translation (armature_bone b) \<and>
           original_rotation b = matrix_local_to_quaternion (armature_bone b)"
    using fresh(5) by (simp add: ab new_ImportBone_armature_bone)
  show "parent b \<noteq> None \<Longrightarrow>
           \<exists>p. bone_parent (armature_bone b) = Some p \<and>
             original_location b =
               Vector_rotate m
                 (Vector_sub (matrix_local_translation (armature_bone b))
                    (matrix_local_translation p))
                 (conjugated (matrix_local_to_quaternion p)) \<and>
             original_rotation b =
               conjugated
                 (Quaternion_rotate m (matrix_local_to_quaternion (armature_bone b))
                    (conjugated (matrix_local_to_quaternion p)))"
    using fresh(6) by (simp add: ab new_ImportBone_armature_bone)
qed

lemmas example_defs =
  example_bones_def root_bone_def spine_bone_def hand_bone_def
  root_import_bone_def spine_import_bone_def hand_import_bone_def
  root_spine_mapping_def root_hand_mapping_def

lemma root_spine_scan:
  "map_psa_bones ascii_lower ''EXACT'' (map bone_name example_bones)
     (enumerate 0 [''Root'', ''Spine'']) empty_bone_mapping = Inr root_spine_mapping"
  by (simp add: example_defs map_psa_bone_def get_armature_bone_index_for_psa_bone_def
        empty_bone_mapping_def)

lemma root_hand_scan:
  "map_psa_bones ascii_lower ''EXACT'' (map bone_name example_bones)
     (enumerate 0 [''Root'', ''Hand'', ''Tail'']) empty_bone_mapping = Inr root_hand_mapping"
  by (simp add: example_defs map_psa_bone_def get_armature_bone_index_for_psa_bone_def
        empty_bone_mapping_def)

lemma root_spine_build:
  "build_import_bones hamilton_mathutils example_bones root_spine_mapping =
     Inr [Some root_import_bone, Some spine_import_bone]"
  by (simp add: example_defs build_import_bones_def bones_getitem_def new_ImportBone_def
        calculate_bind_pose_def hamilton_mathutils_def hamilton_def hamilton_rotate_vec_def
        conjugated_def Vector_sub_def Quaternion1_def Vector0_def)

lemma root_hand_build:
  "build_import_bones hamilton_mathutils example_bones root_hand_mapping =
     Inr [Some root_import_bone, Some hand_import_bone, None]"
  by (simp add: example_defs build_import_bones_def bones_getitem_def new_ImportBone_def
        calculate_bind_pose_def hamilton_mathutils_def hamilton_def hamilton_rotate_vec_def
        conjugated_def Vector_sub_def Quaternion1_def Vector0_def)

lemma calculate_fcurve_data_eq:
  "calculate_fcurve_data m b (rot, loc) =
     (Quaternion_rotate m
        (Quaternion_rotate m (post_rotation b) (original_rotation b))
        (conjugated
           (Quaternion_rotate m (post_rotation b)
              (if parent b = None then conjugated rot else rot))),
      Vector_rotate m (Vector_sub loc (original_location b)) (conjugated (post_rotation b)))"
  by (simp add: calculate_fcurve_data_def q_new_def q_rotate_def Let_def)

lemma claimant_ex:
  assumes "k < length ns" and "get_armature_bone_index_for_psa_bone lower (ns ! k) arm mode = Some t"
  shows "\<exists>s. claimant lower mode arm ns t = Some s"
proof -
  let ?gi = "\<lambda>n. get_armature_bone_index_for_psa_bone lower n arm mode"
  from assms(1) have "ns ! k \<in> set ns" by simp
  then have "?gi (ns ! k) \<in> ?gi ` set ns" by (rule imageI)
  with assms(2) have "Some t \<in> set (map ?gi ns)" by simp
  then have "list_index (map ?gi ns) (Some t) \<noteq> None"
    by (simp add: list_index_None)
  then show ?thesis by (auto simp: claimant_def)
qed

text \<open>
  An armature bone name that occurs in \<^verbatim>\<open>psa_bone_names\<close> is the name of a mapped PSA
  bone.
\<close>

lemma armature_name_in_psa_bone_names:
  assumes inv: "scan_inv lower mode arm ns st"
    and x: "x \<in> set arm" "x \<in> set (psa_bone_names st)"
  shows "\<exists>s<length ns. map_of (psa_to_armature_bone_indices st) s \<noteq> None \<and>
           psa_bone_names st ! s = x"
proof -
  let ?gi = "\<lambda>n. get_armature_bone_index_for_psa_bone lower n arm mode"
  from inv have names: "psa_bone_names st = map (resolved_name lower mode arm) ns"
    by (simp add: scan_inv_def)
  with x(2) obtain k where k: "k < length ns" "x = resolved_name lower mode arm (ns ! k)"
    by (auto simp: in_set_conv_nth)
  show ?thesis
  proof (cases "?gi (ns ! k)")
    case None
    with k(2) have "x = ns ! k" by (simp add: resolved_name_def)
    with get_index_None_notin [OF None] x(1) show ?thesis by simp
  next
    case (Some t)
    with k(2) have xt: "x = arm ! t" by (simp add: resolved_name_def)
    from claimant_ex [OF k(1) Some] obtain s where s: "claimant lower mode arm ns t = Some s" ..
    from claimant_Some [OF s] have sl: "s < length ns" and gs: "?gi (ns ! s) = Some t"
      by simp_all
    from inv s have "list_index arm (ns ! s) \<noteq> None"
      unfolding scan_inv_def by blast
    then obtain j where j: "list_index arm (ns ! s) = Some j" by auto
    from inv have "(s, j) \<in> set (psa_to_armature_bone_indices st) \<longleftrightarrow>
        s < length ns \<and> (\<exists>t. ?gi (ns ! s) = Some t \<and> claimant lower mode arm ns t = Some s) \<and>
        list_index arm (ns ! s) = Some j"
      unfolding scan_inv_def by blast
    with sl gs s j have "(s, j) \<in> set (psa_to_armature_bone_indices st)" by blast
    then have "map_of (psa_to_armature_bone_indices st) s \<noteq> None"
      by (metis map_of_eq_None_iff fst_conv image_eqI)
    moreover have "psa_bone_names st ! s = x"
      using sl gs xt by (simp add: names resolved_name_def)
    ultimately show ?thesis using sl by blast
  qed
qed

lemma mapped_bone_names_subset:
  assumes build: "build_import_bones m bs st = Inr ibs"
  shows "mapped_bone_names ibs \<subseteq> set (psa_bone_names st)"
proof
  fix x
  assume "x \<in> mapped_bone_names ibs"
  then obtain b where b: "Some b \<in> set ibs" "x = bone_name (armature_bone b)"
    by (auto simp: mapped_bone_names_def)
  then obtain i where i: "i < length ibs" "ibs ! i = Some b"
    by (auto simp: in_set_conv_nth)
  from import_bone_bind_pose(2) [OF build i] build_import_bones_Inr(1) [OF build] i(1) b(2)
  show "x \<in> set (psa_bone_names st)" by simp
qed

lemma armature_name_mapped:
  assumes scan: "map_psa_bones lower mode (map bone_name bs) (enumerate 0 ns) empty_bone_mapping = Inr st"
    and build: "build_import_bones m bs st = Inr ibs"
    and x: "x \<in> bone_name ` set bs" "x \<in> set (psa_bone_names st)"
  shows "x \<in> mapped_bone_names ibs"
proof -
  from map_psa_bones_inv [OF scan] have inv: "scan_inv lower mode (map bone_name bs) ns st" .
  then have "length (psa_bone_names st) = length ns" by (simp add: scan_inv_def)
  with build_import_bones_Inr(1) [OF build] have len: "length ibs = length ns" by simp
  from armature_name_in_psa_bone_names [OF inv _ x(2)] x(1)
  obtain s where s: "s < length ns" "map_of (psa_to_armature_bone_indices st) s \<noteq> None"
    "psa_bone_names st ! s = x" by auto
  from build_import_bones_Inr(2) [OF build, of s] s(1,2) len
  obtain b where b: "ibs ! s = Some b" by auto
  from import_bone_bind_pose(2) [OF build _ b] s len
  have "bone_name (armature_bone b) = x" by simp
  moreover have "Some b \<in> set ibs"
    using b s(1) len by (metis nth_mem)
  ultimately show ?thesis by (auto simp: mapped_bone_names_def)
qed

lemma mapped_bone_names_simps:
  "mapped_bone_names [] = {}"
  "mapped_bone_names (None # ibs) = mapped_bone_names ibs"
  "mapped_bone_names (Some b # ibs) = insert (bone_name (armature_bone b)) (mapped_bone_names ibs)"
  by (auto simp: mapped_bone_names_def)

section \<open>The import as a whole\<close>

lemma calculate_bind_pose_ex:
  assumes "parent b = None"
    and "\<forall>p. bone_parent (armature_bone b) = Some p \<and> bone_name p \<in> set ns \<longrightarrow>
           d (bone_name p) \<noteq> None"
  shows "\<exists>b'. calculate_bind_pose m ns d b = Inr b'"
  using assms
  by (cases "bone_parent (armature_bone b)") (auto simp: calculate_bind_pose_def Let_def)

lemma mapped_index:
  assumes inv: "scan_inv lower mode arm ns st"
    and i: "map_of (psa_to_armature_bone_indices st) i \<noteq> None"
  shows "i < length ns" and "psa_bone_names st ! i \<in> set arm"
proof -
  from i obtain j where "(i, j) \<in> set (psa_to_armature_bone_indices st)"
    by (auto dest: map_of_SomeD)
  moreover from inv have "(i, j) \<in> set (psa_to_armature_bone_indices st) \<longleftrightarrow>
        i < length ns \<and>
        (\<exists>t. get_armature_bone_index_for_psa_bone lower (ns ! i) arm mode = Some t \<and>
             claimant lower mode arm ns t = Some i) \<and>
        list_index arm (ns ! i) = Some j"
    unfolding scan_inv_def by blast
  ultimately obtain t where il: "i < length ns"
    and t: "get_armature_bone_index_for_psa_bone lower (ns ! i) arm mode = Some t"
    by blast
  from inv have "psa_bone_names st = map (resolved_name lower mode arm) ns"
    by (simp add: scan_inv_def)
  with il t have "psa_bone_names st ! i = arm ! t"
    by (simp add: resolved_name_def)
  with get_index_Some [OF t] show "psa_bone_names st ! i \<in> set arm" by simp
  show "i < length ns" by (rule il)
qed

lemma build_import_bones_ex:
  assumes inv: "scan_inv lower mode (map bone_name bs) ns st"
    and wf: "parents_in_armature bs"
  shows "\<exists>ibs. build_import_bones m bs st = Inr ibs"
proof -
  let ?p2a = "psa_to_armature_bone_indices st"
  let ?names = "psa_bone_names st"
  have "\<forall>i<length ?names. map_of ?p2a i \<noteq> None \<longrightarrow> ?names ! i \<in> bone_name ` set bs"
    using mapped_index(2) [OF inv] by auto
  from create_import_bones_ex [OF this] obtain ibs0 d where
    c: "create_import_bones bs ?p2a (enumerate 0 ?names) ([], Map.empty) = Inr (ibs0, d)"
    by (metis surj_pair)
  from create_import_bones_created [OF c] have cr: "created bs ?p2a ?names (ibs0, d)" .
  from inv have len: "length ?names = length ns" by (simp add: scan_inv_def)
  have "\<exists>b'. calculate_bind_pose m ?names d b = Inr b'" if "Some b \<in> set ibs0" for b
  proof -
    from that obtain i where i: "i < length ibs0" "ibs0 ! i = Some b"
      by (auto simp: in_set_conv_nth)
    with cr have il: "i < length ?names" by (simp add: created_def)
    with cr i(2) obtain a where a: "bones_getitem bs (?names ! i) = Inr a"
      "b = new_ImportBone i a"
      unfolding created_def by (cases "map_of ?p2a i = None") auto
    from bones_getitem_Inr [OF a(1)] have ab: "a \<in> set bs" by simp
    have "d (bone_name p) \<noteq> None"
      if p: "bone_parent a = Some p" "bone_name p \<in> set ?names" for p
    proof -
      from wf ab p(1) have "bone_name p \<in> set (map bone_name bs)"
        unfolding parents_in_armature_def by auto
      from armature_name_in_psa_bone_names [OF inv this p(2)]
      obtain s where s: "s < length ns" "map_of ?p2a s \<noteq> None" "?names ! s = bone_name p"
        by blast
      from cr have "\<forall>i<length ?names. map_of ?p2a i \<noteq> None \<longrightarrow> d (?names ! i) \<noteq> None"
        by (simp add: created_def)
      with s(1,2) len have "d (?names ! s) \<noteq> None" by metis
      with s(3) show ?thesis by simp
    qed
    then show ?thesis
      by (intro calculate_bind_pose_ex) (simp_all add: a(2) new_ImportBone_def)
  qed
  then have "\<exists>r. for_each_import_bone (calculate_bind_pose m ?names d) ibs0 = Inr r"
    by (intro for_each_import_bone_ex) blast
  with c show ?thesis by (simp add: build_import_bones_def)
qed

lemma create_fcurves_ex:
  "\<forall>i\<in>fst ` set ps. i < length ibs \<and> ibs ! i \<noteq> None \<Longrightarrow>
     \<exists>ibs'. create_fcurves c fl ps ibs = Inr ibs' \<and> length ibs' = length ibs \<and>
       (\<forall>i<length ibs. (ibs' ! i = None) = (ibs ! i = None))"
proof (induction ps arbitrary: ibs)
  case Nil
  show ?case by simp
next
  case (Cons x ps)
  obtain i j where x: "x = (i, j)" by (cases x)
  from Cons.prems x have i: "i < length ibs" "ibs ! i \<noteq> None" by auto
  then obtain b where b: "ibs ! i = Some b" by auto
  let ?ibs = "ibs[i := Some (b\<lparr>fcurves := new_fcurves c (case fl i of None \<Rightarrow> 0 | Some f \<Rightarrow> f)\<rparr>)]"
  have "\<forall>k\<in>fst ` set ps. k < length ?ibs \<and> ?ibs ! k \<noteq> None"
  proof
    fix k
    assume "k \<in> fst ` set ps"
    then have "k \<in> fst ` set (x # ps)" by auto
    with Cons.prems have "k < length ibs \<and> ibs ! k \<noteq> None" by (rule bspec)
    then show "k < length ?ibs \<and> ?ibs ! k \<noteq> None"
      by (cases "k = i") simp_all
  qed
  from Cons.IH [OF this] obtain ibs' where
    r: "create_fcurves c fl ps ?ibs = Inr ibs'" "length ibs' = length ?ibs"
    "\<forall>k<length ?ibs. (ibs' ! k = None) = (?ibs ! k = None)" by blast
  have "\<forall>k<length ibs. (ibs' ! k = None) = (ibs ! k = None)"
  proof (intro allI impI)
    fix k
    assume k: "k < length ibs"
    with r(3) have "(ibs' ! k = None) = (?ibs ! k = None)" by simp
    with k b show "(ibs' ! k = None) = (ibs ! k = None)"
      by (cases "k = i") simp_all
  qed
  with r(1,2) i b show ?case by (simp add: x Let_def)
qed

lemma write_keyframes_shape:
  "length (write_keyframes ts mat n ibs) = length ibs \<and>
   (\<forall>i<length ibs. (write_keyframes ts mat n ibs ! i = None) = (ibs ! i = None))"
  by (simp add: write_keyframes_def nth_enumerate_eq)

lemma import_sequence_ex:
  assumes src: "fps_source options \<in> {''SEQUENCE'', ''CUSTOM'', ''SCENE''}"
    and nz: "fps s \<noteq> 0"
    and ok: "\<forall>i\<in>fst ` set p2a. i < length ibs \<and> ibs ! i \<noteq> None"
  shows "\<exists>action ibs'. import_sequence m c scene_fps reader options p2a ibs s = Inr (action, ibs') \<and>
           length ibs' = length ibs \<and> (\<forall>i<length ibs. (ibs' ! i = None) = (ibs ! i = None))"
proof -
  from src obtain target where t: "calculate_target_fps options scene_fps s = Inr target"
    by (auto simp: calculate_target_fps_def)
  from nz have d: "truediv target (fps s) = Inr (target / fps s)"
    by (simp add: truediv_def)
  show ?thesis
  proof (cases "should_write_keyframes options")
    case False
    with t d show ?thesis by (simp add: import_sequence_def)
  next
    case True
    let ?fl = "case sequence_bone_flags options (sequence_name s) of
                 None \<Rightarrow> Map.empty | Some flags \<Rightarrow> flags"
    from create_fcurves_ex [OF ok, of c ?fl] obtain ibs1 where
      c1: "create_fcurves c ?fl p2a ibs = Inr ibs1" "length ibs1 = length ibs"
      "\<forall>i<length ibs. (ibs1 ! i = None) = (ibs ! i = None)" by blast
    with t d True write_keyframes_shape show ?thesis
      by (simp add: import_sequence_def Let_def)
  qed
qed

lemma import_sequences_ex:
  assumes src: "fps_source options \<in> {''SEQUENCE'', ''CUSTOM'', ''SCENE''}"
  shows "\<forall>s\<in>set ss. fps s \<noteq> 0 \<Longrightarrow>
         \<forall>i\<in>fst ` set p2a. i < length ibs \<and> ibs ! i \<noteq> None \<Longrightarrow>
         \<exists>actions. import_sequences m c scene_fps reader options p2a ibs ss = Inr actions"
proof (induction ss arbitrary: ibs)
  case Nil
  show ?case by simp
next
  case (Cons s ss)
  from Cons.prems have nz: "fps s \<noteq> 0" by simp
  from import_sequence_ex [OF src nz Cons.prems(2), of m c scene_fps reader]
  obtain action ibs' where
    a: "import_sequence m c scene_fps reader options p2a ibs s = Inr (action, ibs')"
    "length ibs' = length ibs" "\<forall>i<length ibs. (ibs' ! i = None) = (ibs ! i = None)"
    by blast
  have "\<forall>i\<in>fst ` set p2a. i < length ibs' \<and> ibs' ! i \<noteq> None"
  proof
    fix i
    assume "i \<in> fst ` set p2a"
    with Cons.prems(2) have "i < length ibs \<and> ibs ! i \<noteq> None" by (rule bspec)
    with a(2,3) show "i < length ibs' \<and> ibs' ! i \<noteq> None" by simp
  qed
  from Cons.IH [OF _ this] Cons.prems(1) obtain actions where
    "import_sequences m c scene_fps reader options p2a ibs' ss = Inr actions" by auto
  with a(1) show ?case by simp
qed

lemma lookup_sequences_ex:
  "\<forall>x\<in>set xs. \<exists>s. d x = Some s \<and> P s \<Longrightarrow>
     \<exists>ss. lookup_sequences d xs = Inr ss \<and> (\<forall>s\<in>set ss. P s)"
proof (induction xs)
  case Nil
  show ?case by simp
next
  case (Cons x xs)
  from Cons.prems obtain s where s: "d x = Some s" "P s" by auto
  from Cons.IH Cons.prems obtain ss where "lookup_sequences d xs = Inr ss" "\<forall>s\<in>set ss. P s"
    by auto
  with s show ?case by simp
qed

lemma unmatched_names_eq:
  "unmatched_names lower mode arm ns =
     {n \<in> set ns. get_armature_bone_index_for_psa_bone lower n arm mode = None}"
  by (simp add: unmatched_names_def get_index_None)

lemma finite_unmatched_names: "finite (unmatched_names lower mode arm ns)"
  by (simp add: unmatched_names_def)

lemma missing_bone_names_eq:
  assumes "scan_inv lower mode arm ns st"
  shows "missing_bone_names (psa_bone_names st) arm =
           sorted_list_of_set (unmatched_names lower mode arm ns)"
proof -
  from assms have "psa_bone_names st = map (resolved_name lower mode arm) ns"
    by (simp add: scan_inv_def)
  then show ?thesis
    by (simp only: missing_bone_names_def resolved_names_missing unmatched_names_eq)
qed

lemma map_bones_eq:
  assumes scan: "map_psa_bones lower mode arm (enumerate 0 ns) empty_bone_mapping = Inr st"
  shows "map_bones lower mode obj arm ns = Inr (st, mapping_warnings lower mode obj arm ns st)"
proof -
  from map_psa_bones_inv [OF scan] have inv: "scan_inv lower mode arm ns st" .
  let ?U = "unmatched_names lower mode arm ns"
  have "length (sorted_list_of_set ?U) = card ?U"
    by simp
  moreover have "sorted_list_of_set ?U = [] \<longleftrightarrow> ?U = {}"
    using finite_unmatched_names by simp
  ultimately have "missing_bones_warnings obj (psa_bone_names st) arm =
      (if ?U = {} then [] else [MissingBones obj (card ?U) (sorted_list_of_set ?U)])"
    by (simp add: missing_bones_warnings_def missing_bone_names_eq [OF inv] Let_def)
  with scan show ?thesis
    by (simp add: map_bones_def mapping_warnings_def)
qed

lemma root_duplicate_scan:
  "map_psa_bones ascii_lower ''CASE_INSENSITIVE'' (map bone_name (data_bones example_armature))
     (enumerate 0 (reader_bones example_reader)) empty_bone_mapping = Inr root_duplicate_mapping"
  by (simp add: example_armature_def example_reader_def root_duplicate_mapping_def example_defs
        map_psa_bone_def get_armature_bone_index_for_psa_bone_def
        ascii_lower_def ascii_lower_char_def empty_bone_mapping_def)

lemma jaw_tail: "sorted_list_of_set {''Tail'', ''Jaw''} = [''Jaw'', ''Tail'']"
  by (simp add: insort_key.simps less_eq_char_def)

lemma root_duplicate_warnings:
  "map_bones ascii_lower ''CASE_INSENSITIVE'' (object_name example_armature)
     (map bone_name (data_bones example_armature)) (reader_bones example_reader) =
   Inr (root_duplicate_mapping,
        [DuplicateMapping 1 ''Root'' 0 ''Root'' 0 ''Root'',
         MissingBones ''Armature'' 2 [''Jaw'', ''Tail'']])"
proof -
  have "set [''Root'', ''Root'', ''Tail'', ''Jaw'', ''Tail''] - set [''Root'', ''Spine'', ''Hand'']
          = {''Tail'', ''Jaw''}"
    by auto
  then have "missing_bone_names (psa_bone_names root_duplicate_mapping)
          (map bone_name (data_bones example_armature)) = [''Jaw'', ''Tail'']"
    by (simp only: missing_bone_names_def jaw_tail)
       (simp add: missing_bone_names_def root_duplicate_mapping_def example_armature_def example_defs jaw_tail)
  then show ?thesis
    by (simp add: map_bones_def root_duplicate_scan missing_bones_warnings_def
          duplicate_mapping_warnings_def)
       (simp add: root_duplicate_mapping_def example_armature_def example_defs)
qed

section \<open>The keyframes of a sequence\<close>

lemma convert_bone_apply:
  "convert_bone m n k b mat (i, j) =
     (if j = k \<and> i < n then calculate_fcurve_data m b (mat (i, k)) else mat (i, j))"
proof (induction n)
  case 0
  show ?case by (simp add: convert_bone_def)
next
  case (Suc n)
  have "convert_bone m (Suc n) k b mat =
          (convert_bone m n k b mat)((n, k) :=
             calculate_fcurve_data m b (convert_bone m n k b mat (n, k)))"
    by (simp add: convert_bone_def)
  with Suc show ?case by (auto simp: less_Suc_eq)
qed

lemma convert_sequence_data_apply:
  "convert_sequence_data m n ibs mat (i, k) =
     (case (if k < length ibs then ibs ! k else None) of
        None \<Rightarrow> mat (i, k)
      | Some b \<Rightarrow> if i < n then calculate_fcurve_data m b (mat (i, k)) else mat (i, k))"
proof (induction ibs arbitrary: i k rule: rev_induct)
  case Nil
  show ?case by (simp add: convert_sequence_data_def)
next
  case (snoc x ibs)
  have step: "convert_sequence_data m n (ibs @ [x]) mat =
          (case x of
             None \<Rightarrow> convert_sequence_data m n ibs mat
           | Some b \<Rightarrow> convert_bone m n (length ibs) b (convert_sequence_data m n ibs mat))"
    unfolding convert_sequence_data_def by (simp add: enumerate_append_eq)
  show ?case
  proof (cases x)
    case None
    with step snoc show ?thesis
      by (auto simp: nth_append less_Suc_eq)
  next
    case (Some b)
    with step snoc show ?thesis
      by (auto simp: nth_append less_Suc_eq convert_bone_apply)
  qed
qed

lemma calculate_fcurve_data_fcurves:
  "calculate_fcurve_data m (b\<lparr>fcurves := fc\<rparr>) = calculate_fcurve_data m b"
  by (simp add: calculate_fcurve_data_def fun_eq_iff)

lemma create_fcurves_Inr:
  "create_fcurves c fl ps ibs = Inr ibs' \<Longrightarrow>
     length ibs' = length ibs \<and>
     (\<forall>k<length ibs.
        (ibs ! k = None \<longrightarrow> ibs' ! k = None) \<and>
        (\<forall>b. ibs ! k = Some b \<longrightarrow> (\<exists>fc. ibs' ! k = Some (b\<lparr>fcurves := fc\<rparr>))))"
proof (induction ps arbitrary: ibs)
  case Nil
  then have e: "ibs' = ibs" by simp
  have "\<exists>fc. Some b = Some (b\<lparr>fcurves := fc\<rparr>)" for b :: ImportBone
    by (rule exI [of _ "fcurves b"]) simp
  then show ?case unfolding e by auto
next
  case (Cons x ps)
  obtain i j where x: "x = (i, j)" by (cases x)
  from Cons.prems x obtain b0 where i: "i < length ibs" "ibs ! i = Some b0"
    and r: "create_fcurves c fl ps
              (ibs[i := Some (b0\<lparr>fcurves := new_fcurves c (case fl i of None \<Rightarrow> 0 | Some f \<Rightarrow> f)\<rparr>)])
            = Inr ibs'"
    by (auto simp: Let_def split: if_splits option.splits)
  let ?ibs = "ibs[i := Some (b0\<lparr>fcurves := new_fcurves c (case fl i of None \<Rightarrow> 0 | Some f \<Rightarrow> f)\<rparr>)]"
  from Cons.IH [OF r] have len: "length ibs' = length ?ibs"
    and each: "\<And>k. k < length ?ibs \<Longrightarrow>
        (?ibs ! k = None \<longrightarrow> ibs' ! k = None) \<and>
        (\<forall>b. ?ibs ! k = Some b \<longrightarrow> (\<exists>fc. ibs' ! k = Some (b\<lparr>fcurves := fc\<rparr>)))"
    by auto
  have "(ibs ! k = None \<longrightarrow> ibs' ! k = None) \<and>
        (\<forall>b. ibs ! k = Some b \<longrightarrow> (\<exists>fc. ibs' ! k = Some (b\<lparr>fcurves := fc\<rparr>)))"
    if k: "k < length ibs" for k
  proof (cases "k = i")
    case True
    from each [of i] i(1) obtain fc where
      "ibs' ! i = Some (b0\<lparr>fcurves := new_fcurves c (case fl i of None \<Rightarrow> 0 | Some f \<Rightarrow> f)\<rparr>
                          \<lparr>fcurves := fc\<rparr>)"
      by auto
    then have "ibs' ! i = Some (b0\<lparr>fcurves := fc\<rparr>)" by simp
    with True i(2) show ?thesis by auto
  next
    case False
    with each [of k] k show ?thesis by simp
  qed
  with len show ?case by simp
qed

lemma write_keyframes_nth:
  "k < length ibs \<Longrightarrow>
     write_keyframes ts mat n ibs ! k =
       map_option
         (\<lambda>b. b\<lparr>fcurves :=
                  map (\<lambda>(fcurve_index, fcurve).
                         map_option (\<lambda>_. zip ts (matrix_column mat n k fcurve_index)) fcurve)
                      (enumerate 0 (fcurves b))\<rparr>)
         (ibs ! k)"
  by (simp add: write_keyframes_def nth_enumerate_eq)

lemma keyframe_point:
  "i < n \<Longrightarrow>
     zip (keyframe_times d n) (matrix_column mat n k j) ! i =
       (real i * d, key_data_floats (mat (i, k)) ! j)"
  by (simp add: keyframe_times_def matrix_column_def)

lemma keyframe_points_length:
  "length (zip (keyframe_times d n) (matrix_column mat n k j)) = n"
  by (simp add: keyframe_times_def matrix_column_def)

lemma import_sequence_Inr:
  assumes "import_sequence m c scene_fps reader options p2a ibs s = Inr (action, ibs')"
    and "should_write_keyframes options"
  shows "\<exists>target ibs1.
           calculate_target_fps options scene_fps s = Inr target \<and> fps s \<noteq> 0 \<and>
           create_fcurves c
             (case sequence_bone_flags options (sequence_name s) of
                None \<Rightarrow> Map.empty | Some flags \<Rightarrow> flags) p2a ibs = Inr ibs1 \<and>
           ibs' = write_keyframes (keyframe_times (target / fps s) (frame_count s))
                    (convert_sequence_data m (frame_count s) ibs1
                       (read_sequence_data_matrix reader (sequence_name s)))
                    (frame_count s) ibs1 \<and>
           action_fcurves action = map (map_option fcurves) ibs'"
  using assms
  by (auto simp: import_sequence_def truediv_def Let_def split: sum.splits if_splits)

lemma keyframe_values_write:
  assumes "k < length ibs"
  shows "map_option (map (map_option (map snd))) (map_option fcurves
           (write_keyframes (keyframe_times d n) mat n ibs ! k)) =
         map_option
           (\<lambda>b. map (\<lambda>(j, f). map_option (\<lambda>_. matrix_column mat n k j) f)
                  (enumerate 0 (fcurves b)))
           (ibs ! k)"
proof -
  have z: "map snd (zip (keyframe_times d n) (matrix_column mat n k j)) = matrix_column mat n k j"
    for j
    by (rule map_snd_zip) (simp add: keyframe_times_def matrix_column_def)
  show ?thesis
    by (cases "ibs ! k")
       (simp_all add: write_keyframes_nth [OF assms] option.map_comp comp_def
          case_prod_unfold z)
qed

lemma keyframe_values_dilation:
  "map (map_option (map (map_option (map snd))))
     (map (map_option fcurves) (write_keyframes (keyframe_times d n) mat n ibs)) =
   map (map_option (map (map_option (map snd))))
     (map (map_option fcurves) (write_keyframes (keyframe_times d' n) mat n ibs))"
proof (rule nth_equalityI)
  show "length (map (map_option (map (map_option (map snd))))
     (map (map_option fcurves) (write_keyframes (keyframe_times d n) mat n ibs))) =
   length (map (map_option (map (map_option (map snd))))
     (map (map_option fcurves) (write_keyframes (keyframe_times d' n) mat n ibs)))"
    by (simp add: write_keyframes_def)
next
  fix k
  assume "k < length (map (map_option (map (map_option (map snd))))
     (map (map_option fcurves) (write_keyframes (keyframe_times d n) mat n ibs)))"
  then have k: "k < length ibs" by (simp add: write_keyframes_def)
  then have l: "k < length (write_keyframes (keyframe_times d n) mat n ibs)"
    "k < length (write_keyframes (keyframe_times d' n) mat n ibs)"
    by (simp_all add: write_keyframes_def)
  show "map (map_option (map (map_option (map snd))))
     (map (map_option fcurves) (write_keyframes (keyframe_times d n) mat n ibs)) ! k =
   map (map_option (map (map_option (map snd))))
     (map (map_option fcurves) (write_keyframes (keyframe_times d' n) mat n ibs)) ! k"
    using l by (simp add: keyframe_values_write [OF k])
qed

lemma walk_import:
  "\<exists>action ibs' curves points.
     import_sequence hamilton_mathutils example_config 24 example_reader example_options
       [(0, 0), (1, 2)] [Some root_import_bone, Some hand_import_bone, None] walk_sequence =
       Inr (action, ibs') \<and>
     action_fcurves action ! 1 = Some curves \<and> 4 < length curves \<and> curves ! 4 = Some points"
  by (simp add: import_sequence_def calculate_target_fps_def truediv_def example_options_def
        example_config_def walk_sequence_def new_fcurves_def write_keyframes_def Let_def
        example_defs)

lemma hand_key:
  "key_data_floats (calculate_fcurve_data hamilton_mathutils hand_import_bone
     (read_sequence_data_matrix example_reader (sequence_name walk_sequence) (5, 1))) ! 4 = 1"
  by (simp add: calculate_fcurve_data_eq key_data_floats_def example_reader_def example_defs
        hamilton_mathutils_def hamilton_def hamilton_rotate_vec_def conjugated_def Vector_sub_def
        Quaternion1_def Vector0_def)

section \<open>Writing sections\<close>

lemma fold_write: "fold (\<lambda>datum fp. fp @ [Datum datum]) d fp = fp @ map Datum d"
  by (induction d arbitrary: fp) simp_all

section \<open>The claims\<close>

text \<open>
  C10. For every bone mapping mode other than \<^verbatim>\<open>'CASE_INSENSITIVE'\<close>, known or not,
  the lookup compares names exactly and never raises: it returns the first position
  whose armature bone name equals the PSA bone name, and \<open>None\<close> when no armature bone
  name equals it.
\<close>

theorem exact_lookup_for_every_other_mode:
  assumes "mode \<noteq> ''CASE_INSENSITIVE''"
  shows "case get_armature_bone_index_for_psa_bone lower n names mode of
           None \<Rightarrow> n \<notin> set names
         | Some i \<Rightarrow> i < length names \<and> names ! i = n \<and> (\<forall>j<i. names ! j \<noteq> n)"
proof (cases "get_armature_bone_index_for_psa_bone lower n names mode")
  case None
  then have "True \<notin> set (map (names_match lower mode n) names)"
    by (simp add: get_index_eq list_index_None)
  with assms have "n \<notin> set names"
    by (auto simp: names_match_def)
  with None show ?thesis by simp
next
  case (Some i)
  then have "list_index (map (names_match lower mode n) names) True = Some i"
    by (simp add: get_index_eq)
  from list_index_Some [OF this] assms
  have "i < length names \<and> names ! i = n \<and> (\<forall>j<i. names ! j \<noteq> n)"
    by (auto simp: names_match_def)
  with Some show ?thesis by simp
qed

theorem exact_lookup_for_every_other_mode_witness:
  "''FUZZY'' \<noteq> ''CASE_INSENSITIVE'' \<and>
   get_armature_bone_index_for_psa_bone ascii_lower ''Spine'' [''Pelvis'', ''spine'', ''Spine'']
     ''FUZZY'' = Some 2 \<and>
   [''Pelvis'', ''spine'', ''Spine''] ! 2 = ''Spine'' \<and>
   get_armature_bone_index_for_psa_bone ascii_lower ''Neck'' [''Pelvis'', ''spine'', ''Spine'']
     ''FUZZY'' = None"
  using exact_lookup_for_every_other_mode
          [where mode = "''FUZZY''" and lower = ascii_lower and n = "''Spine''"
             and names = "[''Pelvis'', ''spine'', ''Spine'']"]
  by (simp add: get_armature_bone_index_for_psa_bone_def)

text \<open>
  C1. The per-key conversion returns the rotation \<open>q\<close> rotated by the conjugate of
  \<open>q2\<close>, where \<open>q\<close> is the post-rotation rotated by the original rotation and \<open>q2\<close> is
  the post-rotation rotated by the conjugate of the key's rotation for a bone without
  parent and by the key's rotation itself for a bone with a parent; and it returns the
  location (key location minus original location) rotated by the conjugate of the
  post-rotation.
\<close>

theorem calculate_fcurve_data_composition:
  "calculate_fcurve_data m b (rot, loc) =
     (Quaternion_rotate m
        (Quaternion_rotate m (post_rotation b) (original_rotation b))
        (conjugated
           (Quaternion_rotate m (post_rotation b)
              (if parent b = None then conjugated rot else rot))),
      Vector_rotate m (Vector_sub loc (original_location b)) (conjugated (post_rotation b)))"
  by (simp add: calculate_fcurve_data_def q_new_def q_rotate_def Let_def)

theorem calculate_fcurve_data_composition_witness:
  "calculate_fcurve_data hamilton_mathutils
     \<lparr>psa_bone = 0, parent = None, armature_bone = ArmatureBone ''root'' Vector0 Quaternion1 None,
      original_location = \<lparr>vx = 1, vy = 0, vz = 0\<rparr>,
      original_rotation = \<lparr>qw = 0, qx = 0, qy = 1, qz = 0\<rparr>,
      post_rotation = \<lparr>qw = 0, qx = 1, qy = 0, qz = 0\<rparr>, fcurves = []\<rparr>
     (\<lparr>qw = 0, qx = 0, qy = 0, qz = 1\<rparr>, \<lparr>vx = 1, vy = 2, vz = 3\<rparr>) =
   (\<lparr>qw = 0, qx = - 1, qy = 0, qz = 0\<rparr>, \<lparr>vx = 0, vy = - 2, vz = - 3\<rparr>) \<and>
   calculate_fcurve_data hamilton_mathutils
     \<lparr>psa_bone = 0, parent = Some 1, armature_bone = ArmatureBone ''root'' Vector0 Quaternion1 None,
      original_location = \<lparr>vx = 1, vy = 0, vz = 0\<rparr>,
      original_rotation = \<lparr>qw = 0, qx = 0, qy = 1, qz = 0\<rparr>,
      post_rotation = \<lparr>qw = 0, qx = 1, qy = 0, qz = 0\<rparr>, fcurves = []\<rparr>
     (\<lparr>qw = 0, qx = 0, qy = 0, qz = 1\<rparr>, \<lparr>vx = 1, vy = 2, vz = 3\<rparr>) =
   (\<lparr>qw = 0, qx = 1, qy = 0, qz = 0\<rparr>, \<lparr>vx = 0, vy = - 2, vz = - 3\<rparr>)"
  by (simp add: calculate_fcurve_data_composition hamilton_mathutils_def hamilton_def
        hamilton_rotate_vec_def conjugated_def Vector_sub_def)

text \<open>
  C9. The export writes four sections in this order: the marker section
  \<^verbatim>\<open>ANIMHEAD\<close>, a header only, with element size and element count zero and no
  records; the bone sections \<^verbatim>\<open>BONENAMES\<close>; the sequence section \<^verbatim>\<open>ANIMINFO\<close>; the
  key section \<^verbatim>\<open>ANIMKEYS\<close>. A section written with a record type and a record list
  has a header with the size of the record type and the length of the list, followed by
  the records of the list, in order.
\<close>

theorem export_sections:
  "write_section sizeof fp n (Some t) (Some d) =
     fp @ Header \<lparr>name = n, data_size = sizeof t, data_count = int (length d)\<rparr> # map Datum d
   \<and> write_section sizeof fp n None None =
       fp @ [Header \<lparr>name = n, data_size = 0, data_count = 0\<rparr>]
   \<and> export sizeof psa =
       [Header \<lparr>name = ''ANIMHEAD'', data_size = 0, data_count = 0\<rparr>]
       @ Header \<lparr>name = ''BONENAMES'', data_size = sizeof Psa_Bone,
                 data_count = int (length (bones psa))\<rparr>
         # map (Datum \<circ> Bone) (bones psa)
       @ Header \<lparr>name = ''ANIMINFO'', data_size = sizeof Psa_Sequence,
                 data_count = int (length (sequences psa))\<rparr>
         # map (Datum \<circ> SequenceInfo \<circ> snd) (sequences psa)
       @ Header \<lparr>name = ''ANIMKEYS'', data_size = sizeof Psa_Key,
                 data_count = int (length (keys psa))\<rparr>
         # map (Datum \<circ> Key) (keys psa)"
  by (simp add: export_def write_section_def new_Section_def fold_write)

text \<open>
  C4. Where the mapping loop returns: each armature bone index is claimed by at most one
  PSA bone, the first PSA bone whose lookup gives it; a later PSA bone whose lookup
  gives a claimed index gets no mapping and is recorded as a duplicate mapping (its
  index, the armature bone index, the index of the PSA bone that claims it); a claim
  made at any point of the loop is still there at the end; and the warnings that the
  mapping returns hold a duplicate-mapping warning, with these three indices and the
  names of the bones, for each recorded duplicate mapping and for nothing else. For the
  PSA bones Pelvis, Spine, spine and the armature bones Pelvis, Spine,
  case-insensitively, Spine maps to index 1, and the only warning is the
  duplicate-mapping warning of spine, PSA bone 2, for armature bone 1, which names PSA
  bone 1. In every mode but the case-insensitive one the loop returns.
\<close>

theorem earliest_source_bone_claims_target:
  "(map_psa_bones lower mode arm (enumerate 0 ns) empty_bone_mapping = Inr st \<longrightarrow>
      distinct (map fst (armature_to_psa_bone_indices st)) \<and>
      (\<forall>t s. map_of (armature_to_psa_bone_indices st) t = Some s \<longrightarrow>
         s < length ns \<and>
         get_armature_bone_index_for_psa_bone lower (ns ! s) arm mode = Some t \<and>
         (\<forall>k<s. get_armature_bone_index_for_psa_bone lower (ns ! k) arm mode \<noteq> Some t)) \<and>
      (\<forall>k t. k < length ns \<and> get_armature_bone_index_for_psa_bone lower (ns ! k) arm mode = Some t \<longrightarrow>
         (\<exists>s\<le>k. map_of (armature_to_psa_bone_indices st) t = Some s \<and>
            (s < k \<longrightarrow> (k, t, s) \<in> set (duplicate_mappings st) \<and>
                        map_of (psa_to_armature_bone_indices st) k = None))) \<and>
      (\<forall>k t s. (k, t, s) \<in> set (duplicate_mappings st) \<longrightarrow>
         s < k \<and> k < length ns \<and>
         get_armature_bone_index_for_psa_bone lower (ns ! k) arm mode = Some t \<and>
         map_of (armature_to_psa_bone_indices st) t = Some s) \<and>
      (\<forall>j. \<exists>st'.
         map_psa_bones lower mode arm (enumerate 0 (take j ns)) empty_bone_mapping = Inr st' \<and>
         (\<forall>t s. map_of (armature_to_psa_bone_indices st') t = Some s \<longrightarrow>
                 map_of (armature_to_psa_bone_indices st) t = Some s)) \<and>
      (\<exists>ws. map_bones lower mode obj arm ns = Inr (st, ws) \<and>
         (\<forall>k t s. (k, t, s) \<in> set (duplicate_mappings st) \<longrightarrow>
            DuplicateMapping k (psa_bone_names st ! k) t (arm ! t) s (psa_bone_names st ! s)
              \<in> set ws) \<and>
         (\<forall>k a t b s c. DuplicateMapping k a t b s c \<in> set ws \<longrightarrow>
            (k, t, s) \<in> set (duplicate_mappings st) \<and>
            a = psa_bone_names st ! k \<and> b = arm ! t \<and> c = psa_bone_names st ! s) \<and>
         (\<forall>k t s. k < length ns \<and>
            get_armature_bone_index_for_psa_bone lower (ns ! k) arm mode = Some t \<and>
            map_of (armature_to_psa_bone_indices st) t = Some s \<and> s < k \<longrightarrow>
            DuplicateMapping k (arm ! t) t (arm ! t) s (arm ! t) \<in> set ws))) \<and>
   map_psa_bones ascii_lower ''CASE_INSENSITIVE'' [''Pelvis'', ''Spine'']
       (enumerate 0 [''Pelvis'', ''Spine'', ''spine'']) empty_bone_mapping =
     Inr \<lparr>psa_to_armature_bone_indices = [(0, 0), (1, 1)],
          armature_to_psa_bone_indices = [(0, 0), (1, 1)],
          psa_bone_names = [''Pelvis'', ''Spine'', ''Spine''],
          duplicate_mappings = [(2, 1, 1)]\<rparr> \<and>
   map_bones ascii_lower ''CASE_INSENSITIVE'' obj [''Pelvis'', ''Spine'']
       [''Pelvis'', ''Spine'', ''spine''] =
     Inr (\<lparr>psa_to_armature_bone_indices = [(0, 0), (1, 1)],
           armature_to_psa_bone_indices = [(0, 0), (1, 1)],
           psa_bone_names = [''Pelvis'', ''Spine'', ''Spine''],
           duplicate_mappings = [(2, 1, 1)]\<rparr>,
          [DuplicateMapping 2 ''Spine'' 1 ''Spine'' 1 ''Spine'']) \<and>
   (mode \<noteq> ''CASE_INSENSITIVE'' \<longrightarrow>
      (\<exists>st'. map_psa_bones lower mode arm (enumerate 0 ns) empty_bone_mapping = Inr st'))"
proof (intro conjI impI)
  assume scan: "map_psa_bones lower mode arm (enumerate 0 ns) empty_bone_mapping = Inr st"
  let ?gi = "\<lambda>n. get_armature_bone_index_for_psa_bone lower n arm mode"
  from map_psa_bones_inv [OF scan] have inv: "scan_inv lower mode arm ns st" .
  then have a2p: "map_of (armature_to_psa_bone_indices st) t = claimant lower mode arm ns t" for t
    by (simp add: scan_inv_def)
  from inv have dups: "(k, t, s) \<in> set (duplicate_mappings st) \<longleftrightarrow>
        k < length ns \<and> ?gi (ns ! k) = Some t \<and> claimant lower mode arm ns t = Some s \<and> s < k" for k t s
    by (simp add: scan_inv_def)
  from inv have p2a: "(i, j) \<in> set (psa_to_armature_bone_indices st) \<longleftrightarrow>
        i < length ns \<and> (\<exists>t. ?gi (ns ! i) = Some t \<and> claimant lower mode arm ns t = Some i) \<and>
        list_index arm (ns ! i) = Some j" for i j
    by (simp add: scan_inv_def)
  from inv show "distinct (map fst (armature_to_psa_bone_indices st))"
    by (simp add: scan_inv_def)
  show "\<forall>t s. map_of (armature_to_psa_bone_indices st) t = Some s \<longrightarrow>
         s < length ns \<and> ?gi (ns ! s) = Some t \<and> (\<forall>k<s. ?gi (ns ! k) \<noteq> Some t)"
    using claimant_Some by (simp add: a2p)
  show "\<forall>k t. k < length ns \<and> ?gi (ns ! k) = Some t \<longrightarrow>
         (\<exists>s\<le>k. map_of (armature_to_psa_bone_indices st) t = Some s \<and>
            (s < k \<longrightarrow> (k, t, s) \<in> set (duplicate_mappings st) \<and>
                        map_of (psa_to_armature_bone_indices st) k = None))"
  proof (intro allI impI)
    fix k t
    assume kt: "k < length ns \<and> ?gi (ns ! k) = Some t"
    then have "ns ! k \<in> set ns" by simp
    then have "?gi (ns ! k) \<in> ?gi ` set ns" by (rule imageI)
    with kt have "Some t \<in> set (map ?gi ns)" by simp
    then obtain s where s: "claimant lower mode arm ns t = Some s"
      unfolding claimant_def using list_index_None [of "map ?gi ns" "Some t"] by fastforce
    from claimant_Some [OF s] have "\<forall>k<s. ?gi (ns ! k) \<noteq> Some t" by simp
    with kt have "\<not> k < s" by blast
    then have sk: "s \<le> k" by simp
    have np: "map_of (psa_to_armature_bone_indices st) k = None" if "s < k"
    proof (rule ccontr)
      assume "map_of (psa_to_armature_bone_indices st) k \<noteq> None"
      then obtain j where "(k, j) \<in> set (psa_to_armature_bone_indices st)"
        by (auto dest: map_of_SomeD)
      then have "\<exists>t'. ?gi (ns ! k) = Some t' \<and> claimant lower mode arm ns t' = Some k"
        by (simp add: p2a)
      with kt have "claimant lower mode arm ns t = Some k" by auto
      with s that show False by simp
    qed
    have d: "(k, t, s) \<in> set (duplicate_mappings st)" if "s < k"
      using that kt s by (simp add: dups)
    have "s \<le> k \<and> map_of (armature_to_psa_bone_indices st) t = Some s \<and>
            (s < k \<longrightarrow> (k, t, s) \<in> set (duplicate_mappings st) \<and>
                        map_of (psa_to_armature_bone_indices st) k = None)"
      using sk s np d by (simp add: a2p)
    then show "\<exists>s\<le>k. map_of (armature_to_psa_bone_indices st) t = Some s \<and>
            (s < k \<longrightarrow> (k, t, s) \<in> set (duplicate_mappings st) \<and>
                        map_of (psa_to_armature_bone_indices st) k = None)"
      by blast
  qed
  show "\<forall>k t s. (k, t, s) \<in> set (duplicate_mappings st) \<longrightarrow>
         s < k \<and> k < length ns \<and> ?gi (ns ! k) = Some t \<and>
         map_of (armature_to_psa_bone_indices st) t = Some s"
    by (simp add: a2p dups)
  show "\<forall>j. \<exists>st'.
         map_psa_bones lower mode arm (enumerate 0 (take j ns)) empty_bone_mapping = Inr st' \<and>
         (\<forall>t s. map_of (armature_to_psa_bone_indices st') t = Some s \<longrightarrow>
                 map_of (armature_to_psa_bone_indices st) t = Some s)"
  proof
    fix j
    from map_psa_bones_prefix [OF scan, of j] obtain st' where
      st': "map_psa_bones lower mode arm (enumerate 0 (take j ns)) empty_bone_mapping = Inr st'"
      by blast
    from map_psa_bones_inv [OF st']
    have "map_of (armature_to_psa_bone_indices st') t = claimant lower mode arm (take j ns) t" for t
      by (simp add: scan_inv_def)
    then have "map_of (armature_to_psa_bone_indices st') t = Some s \<Longrightarrow>
          map_of (armature_to_psa_bone_indices st) t = Some s" for t s
      using claimant_take [of lower mode arm j ns t s] by (simp add: a2p)
    with st' show "\<exists>st'.
         map_psa_bones lower mode arm (enumerate 0 (take j ns)) empty_bone_mapping = Inr st' \<and>
         (\<forall>t s. map_of (armature_to_psa_bone_indices st') t = Some s \<longrightarrow>
                 map_of (armature_to_psa_bone_indices st) t = Some s)"
      by blast
  qed
  show "\<exists>ws. map_bones lower mode obj arm ns = Inr (st, ws) \<and>
         (\<forall>k t s. (k, t, s) \<in> set (duplicate_mappings st) \<longrightarrow>
            DuplicateMapping k (psa_bone_names st ! k) t (arm ! t) s (psa_bone_names st ! s)
              \<in> set ws) \<and>
         (\<forall>k a t b s c. DuplicateMapping k a t b s c \<in> set ws \<longrightarrow>
            (k, t, s) \<in> set (duplicate_mappings st) \<and>
            a = psa_bone_names st ! k \<and> b = arm ! t \<and> c = psa_bone_names st ! s) \<and>
         (\<forall>k t s. k < length ns \<and>
            get_armature_bone_index_for_psa_bone lower (ns ! k) arm mode = Some t \<and>
            map_of (armature_to_psa_bone_indices st) t = Some s \<and> s < k \<longrightarrow>
            DuplicateMapping k (arm ! t) t (arm ! t) s (arm ! t) \<in> set ws)"
    by (rule duplicate_mappings_are_warned [OF scan])
next
  show "map_psa_bones ascii_lower ''CASE_INSENSITIVE'' [''Pelvis'', ''Spine'']
       (enumerate 0 [''Pelvis'', ''Spine'', ''spine'']) empty_bone_mapping =
     Inr \<lparr>psa_to_armature_bone_indices = [(0, 0), (1, 1)],
          armature_to_psa_bone_indices = [(0, 0), (1, 1)],
          psa_bone_names = [''Pelvis'', ''Spine'', ''Spine''],
          duplicate_mappings = [(2, 1, 1)]\<rparr>"
    by (rule scan_ex)
  show "map_bones ascii_lower ''CASE_INSENSITIVE'' obj [''Pelvis'', ''Spine'']
       [''Pelvis'', ''Spine'', ''spine''] =
     Inr (\<lparr>psa_to_armature_bone_indices = [(0, 0), (1, 1)],
           armature_to_psa_bone_indices = [(0, 0), (1, 1)],
           psa_bone_names = [''Pelvis'', ''Spine'', ''Spine''],
           duplicate_mappings = [(2, 1, 1)]\<rparr>,
          [DuplicateMapping 2 ''Spine'' 1 ''Spine'' 1 ''Spine''])"
    by (rule spine_example_warnings)
next
  assume "mode \<noteq> ''CASE_INSENSITIVE''"
  then show "\<exists>st'. map_psa_bones lower mode arm (enumerate 0 ns) empty_bone_mapping = Inr st'"
    by (rule map_psa_bones_exact_returns)
qed

theorem earliest_source_bone_claims_target_witness:
  "map_psa_bones ascii_lower ''CASE_INSENSITIVE'' [''Pelvis'', ''Spine'']
       (enumerate 0 [''Pelvis'', ''Spine'', ''spine'']) empty_bone_mapping = Inr spine_example \<and>
   distinct (map fst (armature_to_psa_bone_indices spine_example)) \<and>
   (2, 1, 1) \<in> set (duplicate_mappings spine_example) \<and>
   get_armature_bone_index_for_psa_bone ascii_lower ([''Pelvis'', ''Spine'', ''spine''] ! 2)
     [''Pelvis'', ''Spine''] ''CASE_INSENSITIVE'' = Some 1 \<and>
   map_of (armature_to_psa_bone_indices spine_example) 1 = Some 1 \<and>
   (\<exists>ws. map_bones ascii_lower ''CASE_INSENSITIVE'' ''Armature'' [''Pelvis'', ''Spine'']
           [''Pelvis'', ''Spine'', ''spine''] = Inr (spine_example, ws) \<and>
         DuplicateMapping 2 ''Spine'' 1 ''Spine'' 1 ''Spine'' \<in> set ws)"
proof -
  have scan: "map_psa_bones ascii_lower ''CASE_INSENSITIVE'' [''Pelvis'', ''Spine'']
       (enumerate 0 [''Pelvis'', ''Spine'', ''spine'']) empty_bone_mapping = Inr spine_example"
    unfolding spine_example_def by (rule scan_ex)
  have dup: "(2, 1, 1) \<in> set (duplicate_mappings spine_example)"
    by (simp add: spine_example_def)
  note q = earliest_source_bone_claims_target
      [where lower = ascii_lower and mode = "''CASE_INSENSITIVE''"
        and arm = "[''Pelvis'', ''Spine'']" and ns = "[''Pelvis'', ''Spine'', ''spine'']"
        and st = spine_example and obj = "''Armature''", THEN conjunct1, THEN mp, OF scan]
  have d: "distinct (map fst (armature_to_psa_bone_indices spine_example))"
    by (rule q [THEN conjunct1])
  note r = q [THEN conjunct2, THEN conjunct2, THEN conjunct2, THEN conjunct1, rule_format, OF dup]
  from r have g: "get_armature_bone_index_for_psa_bone ascii_lower
      ([''Pelvis'', ''Spine'', ''spine''] ! 2) [''Pelvis'', ''Spine''] ''CASE_INSENSITIVE'' = Some 1"
    and m: "map_of (armature_to_psa_bone_indices spine_example) 1 = Some 1"
    by simp_all
  from q [THEN conjunct2, THEN conjunct2, THEN conjunct2, THEN conjunct2, THEN conjunct2]
  obtain ws where
    w: "map_bones ascii_lower ''CASE_INSENSITIVE'' ''Armature'' [''Pelvis'', ''Spine'']
           [''Pelvis'', ''Spine'', ''spine''] = Inr (spine_example, ws) \<and>
        (\<forall>k t s. (k, t, s) \<in> set (duplicate_mappings spine_example) \<longrightarrow>
           DuplicateMapping k (psa_bone_names spine_example ! k) t ([''Pelvis'', ''Spine''] ! t)
             s (psa_bone_names spine_example ! s) \<in> set ws) \<and>
        (\<forall>k a t b s c. DuplicateMapping k a t b s c \<in> set ws \<longrightarrow>
           (k, t, s) \<in> set (duplicate_mappings spine_example) \<and>
           a = psa_bone_names spine_example ! k \<and> b = [''Pelvis'', ''Spine''] ! t \<and>
           c = psa_bone_names spine_example ! s) \<and>
        (\<forall>k t s. k < length [''Pelvis'', ''Spine'', ''spine''] \<and>
           get_armature_bone_index_for_psa_bone ascii_lower ([''Pelvis'', ''Spine'', ''spine''] ! k)
             [''Pelvis'', ''Spine''] ''CASE_INSENSITIVE'' = Some t \<and>
           map_of (armature_to_psa_bone_indices spine_example) t = Some s \<and> s < k \<longrightarrow>
           DuplicateMapping k ([''Pelvis'', ''Spine''] ! t) t ([''Pelvis'', ''Spine''] ! t) s
             ([''Pelvis'', ''Spine''] ! t) \<in> set ws)" ..
  from w [THEN conjunct2, THEN conjunct1, rule_format, OF dup]
  have "DuplicateMapping 2 ''Spine'' 1 ''Spine'' 1 ''Spine'' \<in> set ws"
    by (simp add: spine_example_def)
  with w have "\<exists>ws. map_bones ascii_lower ''CASE_INSENSITIVE'' ''Armature'' [''Pelvis'', ''Spine'']
           [''Pelvis'', ''Spine'', ''spine''] = Inr (spine_example, ws) \<and>
         DuplicateMapping 2 ''Spine'' 1 ''Spine'' 1 ''Spine'' \<in> set ws"
    by (intro exI [of _ ws]) simp
  with scan d dup g m show ?thesis by (intro conjI)
qed

text \<open>
  C3. The claim: a PSA bone whose name matches an armature bone name under the mode is
  mapped to the first matching index. The code records
  \<^verbatim>\<open>armature_bone_names.index(psa_bone_name)\<close> (line 101) instead of the index that
  the lookup returned: case-insensitively, the PSA bone pelvis matches armature bone 0,
  Pelvis, and the import raises ValueError; and the PSA bone Spine matches armature
  bone 0 of spine, Spine, and is recorded for armature bone 1.
\<close>

theorem case_insensitive_mapping_records_exact_index:
  "get_armature_bone_index_for_psa_bone ascii_lower ''pelvis'' [''Pelvis''] ''CASE_INSENSITIVE'' = Some 0 \<and>
   map_bones ascii_lower ''CASE_INSENSITIVE'' ''Armature'' [''Pelvis''] [''pelvis''] =
     Inl (ValueError ''pelvis'') \<and>
   get_armature_bone_index_for_psa_bone ascii_lower ''Spine'' [''spine'', ''Spine''] ''CASE_INSENSITIVE'' = Some 0 \<and>
   map_psa_bones ascii_lower ''CASE_INSENSITIVE'' [''spine'', ''Spine'']
       (enumerate 0 [''Spine'']) empty_bone_mapping =
     Inr \<lparr>psa_to_armature_bone_indices = [(0, 1)],
          armature_to_psa_bone_indices = [(0, 0)],
          psa_bone_names = [''spine''],
          duplicate_mappings = []\<rparr>"
  by (simp add: map_bones_def map_psa_bone_def get_armature_bone_index_for_psa_bone_def ascii_lower_def
        ascii_lower_char_def empty_bone_mapping_def)

text \<open>
  C7. The target frame rate is the sequence's own for the source \<^verbatim>\<open>'SEQUENCE'\<close>, the
  custom one for \<^verbatim>\<open>'CUSTOM'\<close>, the scene's for \<^verbatim>\<open>'SCENE'\<close>; for any other source the
  lookup raises ValueError, and so does the import of the sequence, which produces no
  action.
\<close>

theorem target_fps_lookup:
  "(fps_source options = ''SEQUENCE'' \<longrightarrow>
      calculate_target_fps options scene_fps s = Inr (fps s)) \<and>
   (fps_source options = ''CUSTOM'' \<longrightarrow>
      calculate_target_fps options scene_fps s = Inr (fps_custom options)) \<and>
   (fps_source options = ''SCENE'' \<longrightarrow>
      calculate_target_fps options scene_fps s = Inr scene_fps) \<and>
   (fps_source options \<notin> {''SEQUENCE'', ''CUSTOM'', ''SCENE''} \<longrightarrow>
      calculate_target_fps options scene_fps s =
        Inl (ValueError (''Unknown FPS source: '' @ fps_source options)) \<and>
      import_sequence m c scene_fps reader options p2a ibs s =
        Inl (ValueError (''Unknown FPS source: '' @ fps_source options)) \<and>
      import_sequences m c scene_fps reader options p2a ibs (s # rest) =
        Inl (ValueError (''Unknown FPS source: '' @ fps_source options)))"
  by (simp add: calculate_target_fps_def import_sequence_def)

theorem target_fps_lookup_witness:
  "calculate_target_fps example_options 24 \<lparr>sequence_name = ''Walk'', fps = 30, frame_count = 6\<rparr> = Inr 60 \<and>
   calculate_target_fps (example_options\<lparr>fps_source := ''SCENE''\<rparr>) 24
     \<lparr>sequence_name = ''Walk'', fps = 30, frame_count = 6\<rparr> = Inr 24 \<and>
   calculate_target_fps (example_options\<lparr>fps_source := ''SEQUENCE''\<rparr>) 24
     \<lparr>sequence_name = ''Walk'', fps = 30, frame_count = 6\<rparr> = Inr 30 \<and>
   calculate_target_fps (example_options\<lparr>fps_source := ''ACTION''\<rparr>) 24
     \<lparr>sequence_name = ''Walk'', fps = 30, frame_count = 6\<rparr> =
     Inl (ValueError ''Unknown FPS source: ACTION'')"
  using target_fps_lookup [where options = example_options and scene_fps = 24
        and s = "\<lparr>sequence_name = ''Walk'', fps = 30, frame_count = 6\<rparr>"]
    target_fps_lookup [where options = "example_options\<lparr>fps_source := ''SCENE''\<rparr>" and scene_fps = 24
        and s = "\<lparr>sequence_name = ''Walk'', fps = 30, frame_count = 6\<rparr>"]
    target_fps_lookup [where options = "example_options\<lparr>fps_source := ''SEQUENCE''\<rparr>" and scene_fps = 24
        and s = "\<lparr>sequence_name = ''Walk'', fps = 30, frame_count = 6\<rparr>"]
    target_fps_lookup [where options = "example_options\<lparr>fps_source := ''ACTION''\<rparr>" and scene_fps = 24
        and s = "\<lparr>sequence_name = ''Walk'', fps = 30, frame_count = 6\<rparr>"]
  by (simp add: example_options_def)

text \<open>
  C2. For every import bone that the import has built: the post-rotation is the
  conjugate of the original rotation; without parent link, the original location and
  rotation are the armature-space translation and rotation of its armature bone; with a
  parent link, the original location is the armature-space translation minus the
  parent's, rotated by the conjugate of the parent's armature-space rotation, and the
  original rotation is the conjugate of the armature-space rotation rotated by the
  conjugate of the parent's. A bone without parent, with the identity rotation and the
  translation (0, 0, 1), gets the original location (0, 0, 1), the identity as original
  rotation and the identity as post-rotation.
\<close>

theorem bind_pose_derivation:
  "(build_import_bones m bs st = Inr ibs \<and> i < length ibs \<and> ibs ! i = Some b \<longrightarrow>
      post_rotation b = conjugated (original_rotation b) \<and>
      (parent b = None \<longrightarrow>
         original_location b = matrix_local_translation (armature_bone b) \<and>
         original_rotation b = matrix_local_to_quaternion (armature_bone b)) \<and>
      (parent b \<noteq> None \<longrightarrow>
         (\<exists>p. bone_parent (armature_bone b) = Some p \<and>
            original_location b =
              Vector_rotate m
                (Vector_sub (matrix_local_translation (armature_bone b))
                   (matrix_local_translation p))
                (conjugated (matrix_local_to_quaternion p)) \<and>
            original_rotation b =
              conjugated
                (Quaternion_rotate m (matrix_local_to_quaternion (armature_bone b))
                   (conjugated (matrix_local_to_quaternion p)))))) \<and>
   (\<exists>r. calculate_bind_pose m ns d
          (new_ImportBone j (ArmatureBone n \<lparr>vx = 0, vy = 0, vz = 1\<rparr> Quaternion1 None)) = Inr r \<and>
        parent r = None \<and>
        original_location r = \<lparr>vx = 0, vy = 0, vz = 1\<rparr> \<and>
        original_rotation r = Quaternion1 \<and>
        post_rotation r = Quaternion1)"
proof (intro conjI impI)
  assume a: "build_import_bones m bs st = Inr ibs \<and> i < length ibs \<and> ibs ! i = Some b"
  then have 1: "build_import_bones m bs st = Inr ibs" and 2: "i < length ibs"
    and 3: "ibs ! i = Some b" by simp_all
  show "post_rotation b = conjugated (original_rotation b)"
    by (rule import_bone_bind_pose(3) [OF 1 2 3])
  show "original_location b = matrix_local_translation (armature_bone b)"
    and "original_rotation b = matrix_local_to_quaternion (armature_bone b)" if "parent b = None"
    using import_bone_bind_pose(5) [OF 1 2 3 that] by simp_all
  show "\<exists>p. bone_parent (armature_bone b) = Some p \<and>
            original_location b =
              Vector_rotate m
                (Vector_sub (matrix_local_translation (armature_bone b))
                   (matrix_local_translation p))
                (conjugated (matrix_local_to_quaternion p)) \<and>
            original_rotation b =
              conjugated
                (Quaternion_rotate m (matrix_local_to_quaternion (armature_bone b))
                   (conjugated (matrix_local_to_quaternion p)))" if "parent b \<noteq> None"
    by (rule import_bone_bind_pose(6) [OF 1 2 3 that])
next
  show "\<exists>r. calculate_bind_pose m ns d
          (new_ImportBone j (ArmatureBone n \<lparr>vx = 0, vy = 0, vz = 1\<rparr> Quaternion1 None)) = Inr r \<and>
        parent r = None \<and>
        original_location r = \<lparr>vx = 0, vy = 0, vz = 1\<rparr> \<and>
        original_rotation r = Quaternion1 \<and>
        post_rotation r = Quaternion1"
    by (simp add: calculate_bind_pose_def new_ImportBone_def conjugated_def Quaternion1_def)
qed

theorem bind_pose_derivation_witness:
  "build_import_bones hamilton_mathutils example_bones root_spine_mapping =
     Inr [Some root_import_bone, Some spine_import_bone] \<and>
   post_rotation spine_import_bone = conjugated (original_rotation spine_import_bone) \<and>
   parent spine_import_bone \<noteq> None \<and>
   (\<exists>p. bone_parent (armature_bone spine_import_bone) = Some p \<and>
      original_location spine_import_bone =
        Vector_rotate hamilton_mathutils
          (Vector_sub (matrix_local_translation (armature_bone spine_import_bone))
             (matrix_local_translation p))
          (conjugated (matrix_local_to_quaternion p)) \<and>
      original_rotation spine_import_bone =
        conjugated
          (Quaternion_rotate hamilton_mathutils
             (matrix_local_to_quaternion (armature_bone spine_import_bone))
             (conjugated (matrix_local_to_quaternion p))))"
proof -
  have p: "parent spine_import_bone \<noteq> None"
    by (simp add: spine_import_bone_def)
  have "build_import_bones hamilton_mathutils example_bones root_spine_mapping =
          Inr [Some root_import_bone, Some spine_import_bone] \<and>
        1 < length [Some root_import_bone, Some spine_import_bone] \<and>
        [Some root_import_bone, Some spine_import_bone] ! 1 = Some spine_import_bone"
    by (simp add: root_spine_build)
  with bind_pose_derivation [where m = hamilton_mathutils and bs = example_bones and st = root_spine_mapping
      and ibs = "[Some root_import_bone, Some spine_import_bone]" and i = 1
      and b = spine_import_bone] p
  show ?thesis by blast
qed

text \<open>
  C6. In an armature whose bones have their parents in the armature, where the mapping
  loop and the construction of the import bones return: an import bone has a parent
  link exactly when its armature bone has a parent whose name is the name of a mapped
  armature bone; and when the armature bone has a parent that is not mapped, the import
  bone has no parent link, its original location and rotation are those of a root, and
  the per-key conversion takes the root branch.
\<close>

theorem parent_link_iff_parent_mapped:
  assumes scan: "map_psa_bones lower mode (map bone_name bs) (enumerate 0 ns) empty_bone_mapping = Inr st"
    and wf: "parents_in_armature bs"
    and build: "build_import_bones m bs st = Inr ibs"
    and i: "i < length ibs" "ibs ! i = Some b"
  shows "(parent b \<noteq> None \<longleftrightarrow>
            (\<exists>p. bone_parent (armature_bone b) = Some p \<and> bone_name p \<in> mapped_bone_names ibs)) \<and>
         (\<forall>p. bone_parent (armature_bone b) = Some p \<and> bone_name p \<notin> mapped_bone_names ibs \<longrightarrow>
            parent b = None \<and>
            original_location b = matrix_local_translation (armature_bone b) \<and>
            original_rotation b = matrix_local_to_quaternion (armature_bone b) \<and>
            post_rotation b = conjugated (matrix_local_to_quaternion (armature_bone b)) \<and>
            (\<forall>rot loc.
               calculate_fcurve_data m b (rot, loc) =
                 (Quaternion_rotate m
                    (Quaternion_rotate m (post_rotation b) (original_rotation b))
                    (conjugated (Quaternion_rotate m (post_rotation b) (conjugated rot))),
                  Vector_rotate m (Vector_sub loc (original_location b))
                    (conjugated (post_rotation b)))))"
proof -
  note ib = import_bone_bind_pose [OF build i]
  have iff: "parent b \<noteq> None \<longleftrightarrow>
            (\<exists>p. bone_parent (armature_bone b) = Some p \<and> bone_name p \<in> mapped_bone_names ibs)"
  proof
    assume "parent b \<noteq> None"
    with ib(4) obtain p where p: "bone_parent (armature_bone b) = Some p"
      "bone_name p \<in> set (psa_bone_names st)" by blast
    from wf ib(1) p(1) have "bone_name p \<in> bone_name ` set bs"
      unfolding parents_in_armature_def by blast
    from armature_name_mapped [OF scan build this p(2)] p(1)
    show "\<exists>p. bone_parent (armature_bone b) = Some p \<and> bone_name p \<in> mapped_bone_names ibs"
      by blast
  next
    assume "\<exists>p. bone_parent (armature_bone b) = Some p \<and> bone_name p \<in> mapped_bone_names ibs"
    with mapped_bone_names_subset [OF build] ib(4) show "parent b \<noteq> None" by blast
  qed
  have root: "parent b = None \<and>
            original_location b = matrix_local_translation (armature_bone b) \<and>
            original_rotation b = matrix_local_to_quaternion (armature_bone b) \<and>
            post_rotation b = conjugated (matrix_local_to_quaternion (armature_bone b)) \<and>
            (\<forall>rot loc.
               calculate_fcurve_data m b (rot, loc) =
                 (Quaternion_rotate m
                    (Quaternion_rotate m (post_rotation b) (original_rotation b))
                    (conjugated (Quaternion_rotate m (post_rotation b) (conjugated rot))),
                  Vector_rotate m (Vector_sub loc (original_location b))
                    (conjugated (post_rotation b))))"
    if "bone_parent (armature_bone b) = Some p \<and> bone_name p \<notin> mapped_bone_names ibs" for p
  proof -
    from that iff have n: "parent b = None" by auto
    from ib(5) [OF n] ib(3) n show ?thesis
      by (simp add: calculate_fcurve_data_eq)
  qed
  from iff root show ?thesis by blast
qed

theorem parent_link_iff_parent_mapped_witness:
  "map_psa_bones ascii_lower ''EXACT'' (map bone_name example_bones)
     (enumerate 0 [''Root'', ''Hand'', ''Tail'']) empty_bone_mapping = Inr root_hand_mapping \<and>
   parents_in_armature example_bones \<and>
   build_import_bones hamilton_mathutils example_bones root_hand_mapping =
     Inr [Some root_import_bone, Some hand_import_bone, None] \<and>
   bone_parent (armature_bone hand_import_bone) = Some spine_bone \<and>
   bone_name spine_bone \<notin> mapped_bone_names [Some root_import_bone, Some hand_import_bone, None] \<and>
   parent hand_import_bone = None \<and>
   original_location hand_import_bone = matrix_local_translation hand_bone \<and>
   original_rotation hand_import_bone = matrix_local_to_quaternion hand_bone"
proof -
  have wf: "parents_in_armature example_bones"
    by (simp add: parents_in_armature_def example_defs)
  have i: "1 < length [Some root_import_bone, Some hand_import_bone, None]"
    "[Some root_import_bone, Some hand_import_bone, None] ! 1 = Some hand_import_bone"
    by simp_all
  have p: "bone_parent (armature_bone hand_import_bone) = Some spine_bone"
    by (simp add: example_defs)
  have n: "bone_name spine_bone \<notin>
             mapped_bone_names [Some root_import_bone, Some hand_import_bone, None]"
    by (simp add: mapped_bone_names_simps example_defs)
  have a: "armature_bone hand_import_bone = hand_bone"
    by (simp add: hand_import_bone_def)
  from parent_link_iff_parent_mapped [OF root_hand_scan wf root_hand_build i] p n
  have "parent hand_import_bone = None \<and>
        original_location hand_import_bone = matrix_local_translation (armature_bone hand_import_bone) \<and>
        original_rotation hand_import_bone = matrix_local_to_quaternion (armature_bone hand_import_bone)"
    by blast
  with root_hand_scan wf root_hand_build p n a show ?thesis by simp
qed

text \<open>
  C5. Where the mapping loop returns: the missing bone names are the sorted,
  duplicate-free list of the PSA bone names that match no armature bone name; no
  armature bone name is among them; the mapping returns with its warnings, the
  duplicate mappings and at most one warning for the missing bones; and the import, in
  an armature whose bones have their parents in the armature, with the requested
  sequences in the file at a non-zero frame rate and a known frame-rate source,
  returns these warnings as its result.
\<close>

theorem unmatched_names_are_the_missing_bones:
  assumes scan: "map_psa_bones lower mode (map bone_name (data_bones armature))
      (enumerate 0 (reader_bones reader)) empty_bone_mapping = Inr st"
  shows "missing_bone_names (psa_bone_names st) (map bone_name (data_bones armature)) =
           sorted_list_of_set
             (unmatched_names lower mode (map bone_name (data_bones armature)) (reader_bones reader)) \<and>
         unmatched_names lower mode (map bone_name (data_bones armature)) (reader_bones reader)
           \<inter> bone_name ` set (data_bones armature) = {} \<and>
         map_bones lower mode (object_name armature) (map bone_name (data_bones armature))
             (reader_bones reader) =
           Inr (st, mapping_warnings lower mode (object_name armature)
                      (map bone_name (data_bones armature)) (reader_bones reader) st) \<and>
         (bone_mapping_mode options = mode \<and>
          parents_in_armature (data_bones armature) \<and>
          (\<forall>x\<in>set (sequence_names options). \<exists>s. reader_sequences reader x = Some s \<and> fps s \<noteq> 0) \<and>
          fps_source options \<in> {''SEQUENCE'', ''CUSTOM'', ''SCENE''} \<longrightarrow>
          (\<exists>actions. import_psa m lower c scene_fps reader armature options =
             Inr (mapping_warnings lower mode (object_name armature)
                    (map bone_name (data_bones armature)) (reader_bones reader) st,
                  actions)))"
proof (intro conjI impI)
  let ?arm = "map bone_name (data_bones armature)"
  let ?ns = "reader_bones reader"
  from map_psa_bones_inv [OF scan] have inv: "scan_inv lower mode ?arm ?ns st" .
  show "missing_bone_names (psa_bone_names st) ?arm =
          sorted_list_of_set (unmatched_names lower mode ?arm ?ns)"
    by (rule missing_bone_names_eq [OF inv])
  show "unmatched_names lower mode ?arm ?ns \<inter> bone_name ` set (data_bones armature) = {}"
    using names_match_refl by (auto simp: unmatched_names_def)
  show mb: "map_bones lower mode (object_name armature) ?arm ?ns =
          Inr (st, mapping_warnings lower mode (object_name armature) ?arm ?ns st)"
    by (rule map_bones_eq [OF scan])
  assume a: "bone_mapping_mode options = mode \<and>
          parents_in_armature (data_bones armature) \<and>
          (\<forall>x\<in>set (sequence_names options). \<exists>s. reader_sequences reader x = Some s \<and> fps s \<noteq> 0) \<and>
          fps_source options \<in> {''SEQUENCE'', ''CUSTOM'', ''SCENE''}"
  then have "\<forall>x\<in>set (sequence_names options). \<exists>s. reader_sequences reader x = Some s \<and> fps s \<noteq> 0"
    by simp
  from lookup_sequences_ex [OF this] obtain ss where
    ss: "lookup_sequences (reader_sequences reader) (sequence_names options) = Inr ss"
    "\<forall>s\<in>set ss. fps s \<noteq> 0" by blast
  from a have wf: "parents_in_armature (data_bones armature)" by simp
  from build_import_bones_ex [OF inv wf, of m] obtain ibs where
    ibs: "build_import_bones m (data_bones armature) st = Inr ibs" ..
  from inv have "length (psa_bone_names st) = length ?ns" by (simp add: scan_inv_def)
  with build_import_bones_Inr(1) [OF ibs] have len: "length ibs = length ?ns" by simp
  have ok: "\<forall>i\<in>fst ` set (psa_to_armature_bone_indices st). i < length ibs \<and> ibs ! i \<noteq> None"
  proof
    fix i
    assume "i \<in> fst ` set (psa_to_armature_bone_indices st)"
    then have m: "map_of (psa_to_armature_bone_indices st) i \<noteq> None"
      by (simp add: map_of_eq_None_iff)
    from mapped_index(1) [OF inv m] len have il: "i < length ibs" by simp
    with build_import_bones_Inr(2) [OF ibs il] m show "i < length ibs \<and> ibs ! i \<noteq> None"
      by simp
  qed
  from a have src: "fps_source options \<in> {''SEQUENCE'', ''CUSTOM'', ''SCENE''}" by simp
  from import_sequences_ex [OF src ss(2) ok, of m c scene_fps reader] obtain actions where
    "import_sequences m c scene_fps reader options (psa_to_armature_bone_indices st) ibs ss =
       Inr actions" ..
  with ss(1) mb ibs a
  show "\<exists>actions. import_psa m lower c scene_fps reader armature options =
             Inr (mapping_warnings lower mode (object_name armature) ?arm ?ns st, actions)"
    by (simp add: import_psa_def)
qed

theorem unmatched_names_are_the_missing_bones_witness:
  "map_psa_bones ascii_lower ''CASE_INSENSITIVE'' (map bone_name (data_bones example_armature))
     (enumerate 0 (reader_bones example_reader)) empty_bone_mapping = Inr root_duplicate_mapping \<and>
   bone_mapping_mode example_options = ''CASE_INSENSITIVE'' \<and>
   parents_in_armature (data_bones example_armature) \<and>
   sequence_names example_options = [''Walk''] \<and>
   reader_sequences example_reader ''Walk'' =
     Some \<lparr>sequence_name = ''Walk'', fps = 30, frame_count = 6\<rparr> \<and>
   fps_source example_options \<in> {''SEQUENCE'', ''CUSTOM'', ''SCENE''} \<and>
   missing_bone_names (psa_bone_names root_duplicate_mapping)
     (map bone_name (data_bones example_armature)) = [''Jaw'', ''Tail''] \<and>
   (\<exists>actions.
      import_psa hamilton_mathutils ascii_lower example_config 24 example_reader example_armature
        example_options =
      Inr ([DuplicateMapping 1 ''Root'' 0 ''Root'' 0 ''Root'',
            MissingBones ''Armature'' 2 [''Jaw'', ''Tail'']], actions))"
proof -
  let ?arm = "map bone_name (data_bones example_armature)"
  let ?w = "mapping_warnings ascii_lower ''CASE_INSENSITIVE'' (object_name example_armature)
              ?arm (reader_bones example_reader) root_duplicate_mapping"
  have h: "bone_mapping_mode example_options = ''CASE_INSENSITIVE'' \<and>
      parents_in_armature (data_bones example_armature) \<and>
      (\<forall>x\<in>set (sequence_names example_options).
         \<exists>s. reader_sequences example_reader x = Some s \<and> fps s \<noteq> 0) \<and>
      fps_source example_options \<in> {''SEQUENCE'', ''CUSTOM'', ''SCENE''}"
    by (simp add: example_options_def example_armature_def example_reader_def
          parents_in_armature_def example_defs)
  note c5 = unmatched_names_are_the_missing_bones [OF root_duplicate_scan, where options = example_options
      and m = hamilton_mathutils and c = example_config and scene_fps = 24]
  from c5 have "map_bones ascii_lower ''CASE_INSENSITIVE'' (object_name example_armature) ?arm
      (reader_bones example_reader) = Inr (root_duplicate_mapping, ?w)"
    by blast
  then have w: "?w = [DuplicateMapping 1 ''Root'' 0 ''Root'' 0 ''Root'',
                      MissingBones ''Armature'' 2 [''Jaw'', ''Tail'']]"
    by (simp add: root_duplicate_warnings)
  from c5 h have "\<exists>actions.
      import_psa hamilton_mathutils ascii_lower example_config 24 example_reader example_armature
        example_options = Inr (?w, actions)"
    by blast
  then have i: "\<exists>actions.
      import_psa hamilton_mathutils ascii_lower example_config 24 example_reader example_armature
        example_options =
      Inr ([DuplicateMapping 1 ''Root'' 0 ''Root'' 0 ''Root'',
            MissingBones ''Armature'' 2 [''Jaw'', ''Tail'']], actions)"
    by (simp only: w)
  have "set [''Root'', ''Root'', ''Tail'', ''Jaw'', ''Tail''] - set [''Root'', ''Spine'', ''Hand'']
          = {''Tail'', ''Jaw''}"
    by auto
  then have m: "missing_bone_names (psa_bone_names root_duplicate_mapping) ?arm = [''Jaw'', ''Tail'']"
    by (simp add: missing_bone_names_def root_duplicate_mapping_def example_armature_def
          example_defs jaw_tail)
  have q: "sequence_names example_options = [''Walk''] \<and>
      reader_sequences example_reader ''Walk'' =
        Some \<lparr>sequence_name = ''Walk'', fps = 30, frame_count = 6\<rparr>"
    by (simp add: example_options_def example_reader_def)
  from root_duplicate_scan h m i q show ?thesis by blast
qed

text \<open>
  C8. Where the import of a sequence returns and writes keyframes: for every import
  bone, every f-curve of it and every frame index \<open>i\<close>, the keyframe point has the
  time \<open>i\<close> times the target rate divided by the sequence's stored rate, and as value
  the component of the converted key of that frame and bone; the values are the same
  whatever the frame-rate source, the custom rate and the scene's rate are. With the
  stored rate 30 and the custom rate 60, the factor is 2 and frame 5 has the time 10.
\<close>

theorem keyframe_times_and_values:
  "(import_sequence m c scene_fps reader options p2a ibs s = Inr (action, ibs') \<and>
    should_write_keyframes options \<and>
    k < length ibs \<and> ibs ! k = Some b \<and>
    action_fcurves action ! k = Some curves \<and>
    j < length curves \<and> curves ! j = Some points \<and>
    i < frame_count s \<longrightarrow>
    (\<exists>target.
       calculate_target_fps options scene_fps s = Inr target \<and> fps s \<noteq> 0 \<and>
       length points = frame_count s \<and>
       points ! i =
         (real i * (target / fps s),
          key_data_floats
            (calculate_fcurve_data m b
               (read_sequence_data_matrix reader (sequence_name s) (i, k))) ! j))) \<and>
   (import_sequence m c scene_fps reader options p2a ibs s = Inr (action, ibs') \<and>
    import_sequence m c scene_fps2 reader (options\<lparr>fps_source := source2, fps_custom := custom2\<rparr>)
      p2a ibs s = Inr (action2, ibs2) \<longrightarrow>
    keyframe_values action2 = keyframe_values action) \<and>
   calculate_target_fps example_options scene_fps
     \<lparr>sequence_name = ''Walk'', fps = 30, frame_count = 6\<rparr> = Inr 60 \<and>
   truediv 60 30 = Inr 2 \<and>
   keyframe_times 2 6 ! 5 = 10"
proof (intro conjI impI)
  assume a: "import_sequence m c scene_fps reader options p2a ibs s = Inr (action, ibs') \<and>
    should_write_keyframes options \<and>
    k < length ibs \<and> ibs ! k = Some b \<and>
    action_fcurves action ! k = Some curves \<and>
    j < length curves \<and> curves ! j = Some points \<and>
    i < frame_count s"
  let ?n = "frame_count s"
  let ?raw = "read_sequence_data_matrix reader (sequence_name s)"
  from a import_sequence_Inr [of m c scene_fps reader options p2a ibs s action ibs']
  obtain target ibs1 where t: "calculate_target_fps options scene_fps s = Inr target"
    and nz: "fps s \<noteq> 0"
    and cf: "create_fcurves c
             (case sequence_bone_flags options (sequence_name s) of
                None \<Rightarrow> Map.empty | Some flags \<Rightarrow> flags) p2a ibs = Inr ibs1"
    and w: "ibs' = write_keyframes (keyframe_times (target / fps s) ?n)
                    (convert_sequence_data m ?n ibs1 ?raw) ?n ibs1"
    and af: "action_fcurves action = map (map_option fcurves) ibs'"
    by blast
  let ?mat = "convert_sequence_data m ?n ibs1 ?raw"
  let ?ts = "keyframe_times (target / fps s) ?n"
  from a have k: "k < length ibs" and b: "ibs ! k = Some b" by simp_all
  from create_fcurves_Inr [OF cf] k b obtain fc where
    len1: "length ibs1 = length ibs" and b1: "ibs1 ! k = Some (b\<lparr>fcurves := fc\<rparr>)"
    by blast
  from k len1 have k1: "k < length ibs1" by simp
  have "action_fcurves action ! k =
          Some (map (\<lambda>(fcurve_index, fcurve).
                       map_option (\<lambda>_. zip ?ts (matrix_column ?mat ?n k fcurve_index)) fcurve)
                  (enumerate 0 fc))"
    using k1 by (simp add: af w write_keyframes_shape write_keyframes_nth b1)
  with a have curves: "curves =
          map (\<lambda>(fcurve_index, fcurve).
                 map_option (\<lambda>_. zip ?ts (matrix_column ?mat ?n k fcurve_index)) fcurve)
            (enumerate 0 fc)"
    by simp
  from a have j: "j < length curves" by simp
  with curves have jf: "j < length fc" by simp
  then have "curves ! j = map_option (\<lambda>_. zip ?ts (matrix_column ?mat ?n k j)) (fc ! j)"
    by (simp add: curves nth_enumerate_eq)
  with a have points: "points = zip ?ts (matrix_column ?mat ?n k j)"
    by (cases "fc ! j") simp_all
  from a have i: "i < ?n" by simp
  have "?mat (i, k) = calculate_fcurve_data m b (?raw (i, k))"
    using k1 b1 i by (simp add: convert_sequence_data_apply calculate_fcurve_data_fcurves)
  with keyframe_point [OF i, of "target / fps s" ?mat k j]
  have "points ! i = (real i * (target / fps s),
          key_data_floats (calculate_fcurve_data m b (?raw (i, k))) ! j)"
    by (simp add: points)
  moreover have "length points = ?n"
    unfolding points by (rule keyframe_points_length)
  ultimately show "\<exists>target.
       calculate_target_fps options scene_fps s = Inr target \<and> fps s \<noteq> 0 \<and>
       length points = frame_count s \<and>
       points ! i =
         (real i * (target / fps s),
          key_data_floats
            (calculate_fcurve_data m b
               (read_sequence_data_matrix reader (sequence_name s) (i, k))) ! j)"
    using t nz by blast
next
  assume a: "import_sequence m c scene_fps reader options p2a ibs s = Inr (action, ibs') \<and>
    import_sequence m c scene_fps2 reader (options\<lparr>fps_source := source2, fps_custom := custom2\<rparr>)
      p2a ibs s = Inr (action2, ibs2)"
  let ?options2 = "options\<lparr>fps_source := source2, fps_custom := custom2\<rparr>"
  show "keyframe_values action2 = keyframe_values action"
  proof (cases "should_write_keyframes options")
    case False
    with a have "action_fcurves action = []" "action_fcurves action2 = []"
      by (auto simp: import_sequence_def Let_def split: sum.splits)
    then show ?thesis by (simp add: keyframe_values_def)
  next
    case True
    let ?n = "frame_count s"
    let ?raw = "read_sequence_data_matrix reader (sequence_name s)"
    let ?fl = "case sequence_bone_flags options (sequence_name s) of
                 None \<Rightarrow> Map.empty | Some flags \<Rightarrow> flags"
    from a True import_sequence_Inr [of m c scene_fps reader options p2a ibs s action ibs']
    obtain target ibs1 where cf: "create_fcurves c ?fl p2a ibs = Inr ibs1"
      and af: "action_fcurves action = map (map_option fcurves)
                 (write_keyframes (keyframe_times (target / fps s) ?n)
                    (convert_sequence_data m ?n ibs1 ?raw) ?n ibs1)"
      by blast
    from True have "should_write_keyframes ?options2" by simp
    with a import_sequence_Inr [of m c scene_fps2 reader ?options2 p2a ibs s action2 ibs2]
    obtain target2 ibs12 where cf2: "create_fcurves c ?fl p2a ibs = Inr ibs12"
      and af2: "action_fcurves action2 = map (map_option fcurves)
                 (write_keyframes (keyframe_times (target2 / fps s) ?n)
                    (convert_sequence_data m ?n ibs12 ?raw) ?n ibs12)"
      by auto
    from cf cf2 have "ibs12 = ibs1" by simp
    with af af2 show ?thesis
      by (simp only: keyframe_values_def keyframe_values_dilation [of "target2 / fps s" _ _ _ "target / fps s"])
  qed
next
  show "calculate_target_fps example_options scene_fps
     \<lparr>sequence_name = ''Walk'', fps = 30, frame_count = 6\<rparr> = Inr 60"
    by (simp add: calculate_target_fps_def example_options_def)
  show "truediv 60 30 = Inr 2"
    by (simp add: truediv_def)
  show "keyframe_times 2 6 ! 5 = 10"
    by (simp add: keyframe_times_def)
qed

theorem keyframe_times_and_values_witness:
  "\<exists>action ibs' curves points.
     import_sequence hamilton_mathutils example_config 24 example_reader example_options
       [(0, 0), (1, 2)] [Some root_import_bone, Some hand_import_bone, None] walk_sequence =
       Inr (action, ibs') \<and>
     action_fcurves action ! 1 = Some curves \<and> curves ! 4 = Some points \<and>
     length points = 6 \<and> points ! 5 = (10, 1)"
proof -
  from walk_import obtain action ibs' curves points where
    w: "import_sequence hamilton_mathutils example_config 24 example_reader example_options
       [(0, 0), (1, 2)] [Some root_import_bone, Some hand_import_bone, None] walk_sequence =
       Inr (action, ibs')"
    "action_fcurves action ! 1 = Some curves" "4 < length curves" "curves ! 4 = Some points"
    by blast
  have h: "should_write_keyframes example_options"
    "1 < length [Some root_import_bone, Some hand_import_bone, None]"
    "[Some root_import_bone, Some hand_import_bone, None] ! 1 = Some hand_import_bone"
    "5 < frame_count walk_sequence"
    by (simp_all add: example_options_def walk_sequence_def)
  from keyframe_times_and_values [where m = hamilton_mathutils and c = example_config and scene_fps = 24
      and reader = example_reader and options = example_options and ?p2a = "[(0, 0), (1, 2)]"
      and ibs = "[Some root_import_bone, Some hand_import_bone, None]" and s = walk_sequence
      and action = action and ibs' = ibs' and k = 1 and b = hand_import_bone
      and curves = curves and j = 4 and points = points and i = 5] w h
  obtain target where t: "calculate_target_fps example_options 24 walk_sequence = Inr target"
    and l: "length points = frame_count walk_sequence"
    and p: "points ! 5 =
         (real 5 * (target / fps walk_sequence),
          key_data_floats
            (calculate_fcurve_data hamilton_mathutils hand_import_bone
               (read_sequence_data_matrix example_reader (sequence_name walk_sequence) (5, 1))) ! 4)"
    by blast
  from t have "target = 60"
    by (simp add: calculate_target_fps_def example_options_def)
  moreover from p have "points ! 5 = (real 5 * (target / fps walk_sequence), 1)"
    by (simp only: hand_key)
  ultimately have "points ! 5 = (10, 1)"
    by (simp add: walk_sequence_def)
  moreover from l have "length points = 6" by (simp add: walk_sequence_def)
  ultimately show ?thesis using w by blast
qed

end
